theory Spec2Isabelle
  imports Complex_Main "HOL-Library.Sublist"
begin

section \<open>Python strings\<close>

text \<open>
  Python \<open>str\<close> values are modelled as \<open>string\<close> (lists of \<open>char\<close>), one \<open>char\<close> per
  code point. The embedding covers ASCII text: case mapping and the whitespace class act on
  the code points below 128 as Python does, and leave every other \<open>char\<close> alone. Python
  floats (confidences, scores, clock readings) are modelled as exact reals.
\<close>

definition is_space :: "char \<Rightarrow> bool" where
  "is_space c = (let n = (of_char c :: nat) in (9 \<le> n \<and> n \<le> 13) \<or> (28 \<le> n \<and> n \<le> 32))"

definition lower_char :: "char \<Rightarrow> char" where
  "lower_char c = (let n = (of_char c :: nat) in if 65 \<le> n \<and> n \<le> 90 then char_of (n + 32) else c)"

definition upper_char :: "char \<Rightarrow> char" where
  "upper_char c = (let n = (of_char c :: nat) in if 97 \<le> n \<and> n \<le> 122 then char_of (n - 32) else c)"

definition py_lower :: "string \<Rightarrow> string" where
  "py_lower s = map lower_char s"

definition py_upper :: "string \<Rightarrow> string" where
  "py_upper s = map upper_char s"

text \<open>\<open>s.strip()\<close>: drop leading and trailing whitespace.\<close>

definition py_strip :: "string \<Rightarrow> string" where
  "py_strip s = rev (dropWhile is_space (rev (dropWhile is_space s)))"

text \<open>\<open>sub in s\<close> for strings: \<open>sub\<close> occurs as a contiguous substring of \<open>s\<close>.\<close>

fun contains :: "string \<Rightarrow> string \<Rightarrow> bool" where
  "contains sub [] = (sub = [])"
| "contains sub (c # t) = (prefix sub (c # t) \<or> contains sub t)"

text \<open>\<open>s.count(sub)\<close>: the number of non-overlapping occurrences, scanning from the left.\<close>

function count_sub :: "string \<Rightarrow> string \<Rightarrow> nat" where
  "count_sub sub [] = (if sub = [] then 1 else 0)"
| "count_sub sub (c # t) =
     (if sub = [] then length (c # t) + 1
      else if prefix sub (c # t) then 1 + count_sub sub (drop (length sub) (c # t))
      else count_sub sub t)"
  by pat_completeness auto
termination
  by (relation "measure (\<lambda>(sub, s). length s)") (auto simp: neq_Nil_conv)

text \<open>\<open>s.split()\<close>: the maximal runs of non-whitespace characters.\<close>

function py_split :: "string \<Rightarrow> string list" where
  "py_split s =
     (case dropWhile is_space s of
        [] \<Rightarrow> []
      | c # t \<Rightarrow> takeWhile (\<lambda>x. \<not> is_space x) (c # t) # py_split (dropWhile (\<lambda>x. \<not> is_space x) t))"
  by pat_completeness auto
termination
proof (relation "measure length", goal_cases)
  case 1
  show ?case by simp
next
  case (2 s c t)
  have "length (dropWhile (\<lambda>x. \<not> is_space x) t) \<le> length t"
    by (rule length_dropWhile_le)
  moreover have "length (c # t) \<le> length s"
    using 2 length_dropWhile_le [of is_space s] by simp
  ultimately show ?case by simp
qed

declare py_split.simps [simp del]

text \<open>\<open>sep.join(parts)\<close> with \<open>sep = " "\<close>.\<close>

fun join_space :: "string list \<Rightarrow> string" where
  "join_space [] = []"
| "join_space [p] = p"
| "join_space (p # q # ps) = p @ '' '' @ join_space (q # ps)"

definition startswith :: "string \<Rightarrow> string \<Rightarrow> bool" where
  "startswith s p = prefix p s"

definition endswith :: "string \<Rightarrow> string \<Rightarrow> bool" where
  "endswith s p = suffix p s"

section \<open>The statement validator (\<open>AICommandTranslator._validate_translation\<close>)\<close>

text \<open>
  The entries of the \<open>issues\<close> and \<open>suggestions\<close> lists are message strings in the source;
  each message is one constructor here, the two formatted ones carrying the counts they
  print.
\<close>

datatype issue =
    EmptyTranslation
  | NoValidKeywords
  | PrintMissingQuotes
  | LetMissingAssignment
  | UnbalancedForNext nat nat
  | UnbalancedIfThen nat nat
  | ValidationError

datatype suggestion =
    SuggestBasicCommands
  | SuggestPrintQuotes
  | SuggestLetEquals
  | SuggestForNext
  | SuggestIfThen

record validation =
  is_valid :: bool
  issues :: "issue list"
  suggestions :: "suggestion list"
  syntax_score :: real

definition valid_keywords :: "string list" where
  "valid_keywords =
     [''PRINT'', ''LET'', ''FOR'', ''NEXT'', ''IF'', ''THEN'', ''ELSE'', ''GOTO'', ''GOSUB'',
      ''RETURN'', ''END'', ''REM'', ''DATA'', ''READ'', ''RESTORE'', ''DIM'', ''INPUT'', ''CLS'',
      ''LIST'', ''RUN'', ''STOP'', ''CONT'', ''SAVE'', ''LOAD'']"

definition validation0 :: validation where
  "validation0 = \<lparr>is_valid = True, issues = [], suggestions = [], syntax_score = 0\<rparr>"

text \<open>The checks between the empty test and the score, each appending to both lists.\<close>

definition check_keywords :: "string \<Rightarrow> validation \<Rightarrow> validation" where
  "check_keywords translation_upper v =
     (if \<not> list_ex (\<lambda>keyword. contains keyword translation_upper) valid_keywords
      then v\<lparr>issues := issues v @ [NoValidKeywords],
             suggestions := suggestions v @ [SuggestBasicCommands]\<rparr>
      else v)"

definition check_print :: "string \<Rightarrow> string \<Rightarrow> validation \<Rightarrow> validation" where
  "check_print translation translation_upper v =
     (if contains ''PRINT'' translation_upper
         \<and> \<not> contains [CHR 0x22] translation \<and> \<not> contains [CHR 0x27] translation
         \<and> \<not> contains '';'' translation
      then v\<lparr>issues := issues v @ [PrintMissingQuotes],
             suggestions := suggestions v @ [SuggestPrintQuotes]\<rparr>
      else v)"

definition check_let :: "string \<Rightarrow> string \<Rightarrow> validation \<Rightarrow> validation" where
  "check_let translation translation_upper v =
     (if contains ''LET'' translation_upper \<and> \<not> contains ''='' translation
      then v\<lparr>issues := issues v @ [LetMissingAssignment],
             suggestions := suggestions v @ [SuggestLetEquals]\<rparr>
      else v)"

definition check_for_next :: "string \<Rightarrow> validation \<Rightarrow> validation" where
  "check_for_next translation_upper v =
     (let for_count = count_sub ''FOR'' translation_upper;
          next_count = count_sub ''NEXT'' translation_upper
      in if for_count \<noteq> next_count
         then v\<lparr>issues := issues v @ [UnbalancedForNext for_count next_count],
                suggestions := suggestions v @ [SuggestForNext]\<rparr>
         else v)"

definition check_if_then :: "string \<Rightarrow> validation \<Rightarrow> validation" where
  "check_if_then translation_upper v =
     (let if_count = count_sub ''IF'' translation_upper;
          then_count = count_sub ''THEN'' translation_upper
      in if if_count \<noteq> then_count
         then v\<lparr>issues := issues v @ [UnbalancedIfThen if_count then_count],
                suggestions := suggestions v @ [SuggestIfThen]\<rparr>
         else v)"

definition score_and_validity :: "validation \<Rightarrow> validation" where
  "score_and_validity v =
     (let syntax_score = 1.0;
          syntax_score = syntax_score - real (length (issues v)) * 0.2;
          syntax_score = max syntax_score 0.0
      in v\<lparr>syntax_score := syntax_score, is_valid := (length (issues v) = 0)\<rparr>)"

text \<open>
  \<open>_validate_translation\<close> on a string. No operation of the \<open>try\<close> block raises on a
  \<open>str\<close>, so the \<open>except\<close> branch is taken only for a translation that is not a string
  (see \<open>validate_translation_any\<close> below).
\<close>

definition validate_translation :: "string \<Rightarrow> validation" where
  "validate_translation translation =
     (let translation_upper = py_strip (py_upper translation)
      in if py_strip translation = []
         then validation0\<lparr>is_valid := False, issues := [EmptyTranslation]\<rparr>
         else score_and_validity
                (check_if_then translation_upper
                  (check_for_next translation_upper
                    (check_let translation translation_upper
                      (check_print translation translation_upper
                        (check_keywords translation_upper validation0))))))"


definition validation_error :: validation where
  "validation_error = validation0\<lparr>is_valid := False, issues := [ValidationError]\<rparr>"

section \<open>Dynamically typed values\<close>

text \<open>
  Values of type \<open>Any\<close> (request contexts, decoded JSON bodies, result dictionaries) are
  JSON values. A \<open>dict\<close> is an association list with distinct keys, in insertion order.
\<close>

datatype json =
    JNull
  | JBool bool
  | JNum real
  | JStr string
  | JArr "json list"
  | JObj "(string \<times> json) list"

type_synonym py_dict = "(string \<times> json) list"

text \<open>Python truthiness (\<open>if x:\<close>, \<open>not x\<close>, \<open>bool(x)\<close>).\<close>

fun truthy :: "json \<Rightarrow> bool" where
  "truthy JNull = False"
| "truthy (JBool b) = b"
| "truthy (JNum x) = (x \<noteq> 0)"
| "truthy (JStr s) = (s \<noteq> [])"
| "truthy (JArr xs) = (xs \<noteq> [])"
| "truthy (JObj kvs) = (kvs \<noteq> [])"

text \<open>\<open>bool(context)\<close> and \<open>context and ...\<close> for an \<open>Optional[Dict]\<close>.\<close>

fun truthy_ctx :: "py_dict option \<Rightarrow> bool" where
  "truthy_ctx None = False"
| "truthy_ctx (Some kvs) = (kvs \<noteq> [])"

text \<open>
  \<open>_validate_translation\<close> on any value: \<open>translation.upper()\<close> raises \<open>AttributeError\<close> on
  everything that is not a string, and the \<open>except\<close> branch reports a validation error.
\<close>

fun validate_translation_any :: "json \<Rightarrow> validation" where
  "validate_translation_any (JStr s) = validate_translation s"
| "validate_translation_any _ = validation_error"

section \<open>Translation strategies\<close>

subsection \<open>\<open>RuleBasedTranslator\<close>\<close>

definition basic_keywords :: "(string \<times> string) list" where
  "basic_keywords =
     [(''print'', ''PRINT''), (''let'', ''LET''), (''for'', ''FOR''), (''next'', ''NEXT''),
      (''if'', ''IF''), (''then'', ''THEN''), (''else'', ''ELSE''), (''goto'', ''GOTO''),
      (''end'', ''END''), (''rem'', ''REM'')]"

definition operators :: "(string \<times> string) list" where
  "operators =
     [(''equals'', ''=''), (''plus'', ''+''), (''minus'', ''-''), (''times'', ''*''),
      (''divided by'', ''/''), (''greater than'', ''>''), (''less than'', ''<''),
      (''not equal'', ''<>'')]"

definition basic_syntax :: "string list" where
  "basic_syntax = [''PRINT'', ''LET'', ''FOR'', ''NEXT'', ''IF'', ''THEN'']"

text \<open>\<open>sum(1 for keyword in keywords if keyword in text)\<close>.\<close>

definition count_present :: "string list \<Rightarrow> string \<Rightarrow> nat" where
  "count_present keywords text = length (filter (\<lambda>keyword. contains keyword text) keywords)"

definition calculate_rule_confidence :: "string \<Rightarrow> string \<Rightarrow> real" where
  "calculate_rule_confidence command translation =
     (let confidence = 0.5;
          keyword_count = count_present (map fst basic_keywords) command;
          confidence = confidence + min (real keyword_count * 0.1) 0.3;
          syntax_count = count_present basic_syntax translation;
          confidence = confidence + min (real syntax_count * 0.1) 0.2
      in min confidence 1.0)"

text \<open>
  The dictionary a strategy returns: with \<open>success = True\<close> the translation and its score,
  with \<open>success = False\<close> an error message.
\<close>

record strategy_success =
  translation :: json
  confidence :: real
  strategy :: string
  pattern_used :: "string option"
  original_command :: string
  context_used :: "bool option"

datatype strategy_result =
    Translated strategy_success
  | NotTranslated string string

definition rule_can_translate :: "string \<Rightarrow> bool" where
  "rule_can_translate ai_command =
     (let command_lower = py_strip (py_lower ai_command)
      in list_ex (\<lambda>keyword. contains keyword command_lower) (map fst basic_keywords)
         \<or> list_ex (\<lambda>op. contains op command_lower) (map fst operators))"

definition ends_quote :: "string \<Rightarrow> bool" where
  "ends_quote w = (endswith w [CHR 0x22] \<or> endswith w [CHR 0x27])"

definition starts_quote :: "string \<Rightarrow> bool" where
  "starts_quote w = (startswith w [CHR 0x22] \<or> startswith w [CHR 0x27])"

text \<open>
  The quoted text after \<open>print\<close>: the words after the opening one up to and including the
  first that ends with a quote (all of them when none does), and the words left over.
\<close>

definition quoted_text :: "string \<Rightarrow> string list \<Rightarrow> string list \<times> string list" where
  "quoted_text next_word ws =
     (let mid = takeWhile (\<lambda>w. \<not> ends_quote w) ws;
          rem = dropWhile (\<lambda>w. \<not> ends_quote w) ws
      in case rem of
           [] \<Rightarrow> (next_word # mid, [])
         | w # rem' \<Rightarrow> (next_word # mid @ [w], rem'))"

text \<open>
  The \<open>while i < len(words)\<close> loop of \<open>translate\<close>, on the words from index \<open>i\<close> on; the
  result is what the loop appends to \<open>translation_parts\<close>.
\<close>

function rule_scan :: "string list \<Rightarrow> string list" where
  "rule_scan [] = []"
| "rule_scan (word # rest) =
     (case map_of basic_keywords word of
        None \<Rightarrow> rule_scan rest
      | Some basic_cmd \<Rightarrow>
          if word = ''print'' then
            (case rest of
               [] \<Rightarrow> basic_cmd # rule_scan rest
             | next_word # rest' \<Rightarrow>
                 if starts_quote next_word
                 then basic_cmd # join_space (fst (quoted_text next_word rest'))
                        # rule_scan (snd (quoted_text next_word rest'))
                 else basic_cmd # py_upper next_word # rule_scan rest')
          else if word = ''let'' then
            (case rest of
               var_name # operator # value # rest' \<Rightarrow>
                 if operator = ''='' \<or> operator = ''equals''
                 then basic_cmd # py_upper var_name # ''='' # value # rule_scan rest'
                 else basic_cmd # rule_scan rest
             | _ \<Rightarrow> basic_cmd # rule_scan rest)
          else if word = ''for'' then
            (case rest of
               var_name # operator # start_val # rest' \<Rightarrow>
                 if operator = ''='' \<or> operator = ''equals''
                 then basic_cmd # py_upper var_name # ''='' # start_val #
                        (case rest' of
                           to # end_val # rest'' \<Rightarrow>
                             if to = ''to'' then ''TO'' # end_val # rule_scan rest''
                             else rule_scan rest'
                         | _ \<Rightarrow> rule_scan rest')
                 else basic_cmd # rule_scan rest
             | _ \<Rightarrow> basic_cmd # rule_scan rest)
          else basic_cmd # rule_scan rest)"
  by pat_completeness auto
termination
proof (relation "measure length", goal_cases)
  case (4 word rest basic_cmd next_word rest')
  have "length (snd (quoted_text next_word rest')) \<le> length rest'"
    using length_dropWhile_le [of "\<lambda>w. \<not> ends_quote w" rest']
    by (auto simp: quoted_text_def Let_def split: list.splits)
  then show ?case using 4 by simp
qed auto

definition rule_translate :: "string \<Rightarrow> py_dict option \<Rightarrow> strategy_result" where
  "rule_translate ai_command context =
     (let command_lower = py_strip (py_lower ai_command);
          words = py_split command_lower;
          translation_parts = rule_scan words
      in if translation_parts \<noteq> []
         then let translation = join_space translation_parts;
                  confidence = calculate_rule_confidence command_lower translation
              in Translated \<lparr>translation = JStr translation, confidence = confidence,
                    strategy = ''rule_based'', pattern_used = None,
                    original_command = ai_command, context_used = None\<rparr>
         else NotTranslated ''No recognizable patterns found'' ai_command)"

subsection \<open>\<open>ContextualTranslator\<close>\<close>

definition max_history :: nat where
  "max_history = 10"

text \<open>\<open>xs[-n:]\<close> for positive \<open>n\<close>: the last \<open>n\<close> elements.\<close>

definition last_n :: "nat \<Rightarrow> 'a list \<Rightarrow> 'a list" where
  "last_n n xs = drop (length xs - n) xs"

definition contextual_can_translate :: "string \<Rightarrow> bool" where
  "contextual_can_translate ai_command = True"

text \<open>
  \<open>translate\<close> reads and updates \<open>self.context_history\<close>; the model takes the history and
  returns the new one beside the result. \<open>history[-2]\<close> is read only under a guard that makes
  it exist. No operation of the \<open>try\<close> block raises for a string command and a dictionary (or
  absent) context, so the \<open>except\<close> branch has no counterpart.
\<close>

definition contextual_translate ::
  "string list \<Rightarrow> string \<Rightarrow> py_dict option \<Rightarrow> strategy_result \<times> string list" where
  "contextual_translate context_history ai_command context =
     (let command_lower = py_strip (py_lower ai_command);
          history = context_history @ [ai_command];
          history = (if length history > max_history then last_n max_history history else history);
          (translation, confidence) =
            (if contains ''it'' command_lower \<or> contains ''that'' command_lower then
               (if history \<noteq> [] then
                  (let last_command = (if length history > 1 then history ! (length history - 2) else [])
                   in if contains ''print'' (py_lower last_command)
                      then (JStr ''PRINT IT'', 0.7)
                      else (JStr ''REM Context reference not clear'', 0.3))
                else (JStr ''REM No context available'', 0.2))
             else if contains ''again'' command_lower \<or> contains ''repeat'' command_lower then
               (if history \<noteq> [] \<and> length history > 1
                then (JStr (history ! (length history - 2)), 0.8)
                else (JStr ''REM Nothing to repeat'', 0.2))
             else if contains ''now'' command_lower \<or> contains ''next'' command_lower then
               (if truthy_ctx context \<and> map_of (the context) ''sequence'' \<noteq> None then
                  (case the (map_of (the context) ''sequence'') of
                     JArr (next_cmd # _) \<Rightarrow> (next_cmd, 0.9)
                   | _ \<Rightarrow> (JStr ''REM No sequence available'', 0.3))
                else (JStr ''REM No context for sequence'', 0.2))
             else (JStr (''REM '' @ ai_command), 0.4))
      in (Translated \<lparr>translation = translation, confidence = confidence,
            strategy = ''contextual'', pattern_used = None,
            original_command = ai_command, context_used = Some (truthy_ctx context)\<rparr>,
          history))"

subsection \<open>Regular expressions (\<open>re.search\<close> with \<open>re.IGNORECASE\<close>)\<close>

text \<open>
  The patterns of \<open>PatternBasedTranslator\<close> use literals, the classes \<open>\s\<close>, \<open>\w\<close>,
  \<open>\d\<close>, \<open>.\<close>, negated sets, alternation, greedy \<open>?\<close>, \<open>*\<close>, \<open>+\<close>, and numbered
  capturing groups. The matcher is the backtracking one of Python: it lists the ways a
  pattern matches a prefix of the input, in the order Python tries them (first alternative
  first, longest repetition first), each as the rest of the input and the groups captured.
\<close>

datatype cclass =
    Space | NotSpace | Word | Digit | AnyButNewline | OneOf "char list" | NoneOf "char list"

definition is_digit :: "char \<Rightarrow> bool" where
  "is_digit c = (let n = (of_char c :: nat) in 48 \<le> n \<and> n \<le> 57)"

definition is_word :: "char \<Rightarrow> bool" where
  "is_word c =
     (let n = (of_char c :: nat)
      in (48 \<le> n \<and> n \<le> 57) \<or> (65 \<le> n \<and> n \<le> 90) \<or> (97 \<le> n \<and> n \<le> 122) \<or> n = 95)"

fun in_class :: "cclass \<Rightarrow> char \<Rightarrow> bool" where
  "in_class Space c = is_space c"
| "in_class NotSpace c = (\<not> is_space c)"
| "in_class Word c = is_word c"
| "in_class Digit c = is_digit c"
| "in_class AnyButNewline c = (c \<noteq> CHR 0x0A)"
| "in_class (OneOf cs) c = (c \<in> set cs)"
| "in_class (NoneOf cs) c = (c \<notin> set cs)"

datatype regex =
    Eps
  | Chr char
  | Cls cclass
  | Seq regex regex
  | Alt regex regex
  | Star regex
  | Grp nat regex

type_synonym captures = "(nat \<times> string) list"

function rmatch :: "regex \<Rightarrow> string \<Rightarrow> captures \<Rightarrow> (string \<times> captures) list" where
  "rmatch Eps s caps = [(s, caps)]"
| "rmatch (Chr c) s caps =
     (case s of [] \<Rightarrow> [] | x # t \<Rightarrow> if lower_char x = lower_char c then [(t, caps)] else [])"
| "rmatch (Cls k) s caps =
     (case s of [] \<Rightarrow> [] | x # t \<Rightarrow> if in_class k x then [(t, caps)] else [])"
| "rmatch (Seq a b) s caps = concat (map (\<lambda>m. rmatch b (fst m) (snd m)) (rmatch a s caps))"
| "rmatch (Alt a b) s caps = rmatch a s caps @ rmatch b s caps"
| "rmatch (Star a) s caps =
     concat (map (\<lambda>m. if length (fst m) < length s then rmatch (Star a) (fst m) (snd m) else [])
                 (rmatch a s caps))
     @ [(s, caps)]"
| "rmatch (Grp n a) s caps =
     map (\<lambda>m. (fst m, (n, take (length s - length (fst m)) s) # snd m)) (rmatch a s caps)"
  by pat_completeness auto
termination
  by (relation "measures [\<lambda>(r, s, caps). size r, \<lambda>(r, s, caps). length s]") auto

text \<open>\<open>re.search\<close>: the first match at the leftmost position that has one.\<close>

fun rsearch :: "regex \<Rightarrow> string \<Rightarrow> captures option" where
  "rsearch r [] = (case rmatch r [] [] of [] \<Rightarrow> None | m # _ \<Rightarrow> Some (snd m))"
| "rsearch r (c # t) =
     (case rmatch r (c # t) [] of [] \<Rightarrow> rsearch r t | m # _ \<Rightarrow> Some (snd m))"

text \<open>Pattern syntax: a literal word, \<open>a|b|...\<close>, \<open>r+\<close>, \<open>r?\<close>, concatenation.\<close>

definition lit :: "string \<Rightarrow> regex" where
  "lit w = foldr (\<lambda>c r. Seq (Chr c) r) w Eps"

fun alts :: "regex list \<Rightarrow> regex" where
  "alts [] = Cls (OneOf [])"
| "alts [r] = r"
| "alts (r # rs) = Alt r (alts rs)"

definition one_of_words :: "string list \<Rightarrow> regex" where
  "one_of_words ws = alts (map lit ws)"

definition plus :: "regex \<Rightarrow> regex" where
  "plus r = Seq r (Star r)"

definition opt :: "regex \<Rightarrow> regex" where
  "opt r = Alt r Eps"

definition seqs :: "regex list \<Rightarrow> regex" where
  "seqs rs = foldr Seq rs Eps"

definition quote_chars :: "char list" where
  "quote_chars = [CHR 0x27, CHR 0x22]"

definition spaces1 :: regex where
  "spaces1 = plus (Cls Space)"

subsection \<open>\<open>PatternBasedTranslator\<close>\<close>

datatype pattern_name =
    PrintStatement
  | VariableAssignment
  | SimpleAssignment
  | ForLoop
  | ConditionalIf
  | EndProgram
  | Comment
  | Calculation

text \<open>The keys of \<open>self.patterns\<close>, in the order the dictionary is built and iterated.\<close>

definition pattern_names :: "pattern_name list" where
  "pattern_names =
     [PrintStatement, VariableAssignment, SimpleAssignment, ForLoop, ConditionalIf,
      EndProgram, Comment, Calculation]"

fun pattern_key :: "pattern_name \<Rightarrow> string" where
  "pattern_key PrintStatement = ''print_statement''"
| "pattern_key VariableAssignment = ''variable_assignment''"
| "pattern_key SimpleAssignment = ''simple_assignment''"
| "pattern_key ForLoop = ''for_loop''"
| "pattern_key ConditionalIf = ''conditional_if''"
| "pattern_key EndProgram = ''end_program''"
| "pattern_key Comment = ''comment''"
| "pattern_key Calculation = ''calculation''"

text \<open>The \<open>"pattern"\<close> entries.\<close>

fun pattern_regex :: "pattern_name \<Rightarrow> regex" where
  "pattern_regex PrintStatement =
     seqs [one_of_words [''print'', ''display'', ''show'', ''output'', ''echo''], spaces1,
           opt (Cls (OneOf quote_chars)), Grp 1 (plus (Cls (NoneOf quote_chars))),
           opt (Cls (OneOf quote_chars))]"
| "pattern_regex VariableAssignment =
     seqs [one_of_words [''set'', ''let'', ''assign''], spaces1, Grp 1 (plus (Cls Word)), spaces1,
           alts [lit ''to'', Seq (lit ''equal'') (opt (Chr CHR ''s'')), lit ''=''], spaces1,
           Grp 2 (plus (Cls NotSpace))]"
| "pattern_regex SimpleAssignment =
     seqs [Grp 1 (plus (Cls Word)), Star (Cls Space), Chr CHR ''='', Star (Cls Space),
           Grp 2 (plus (Cls NotSpace))]"
| "pattern_regex ForLoop =
     seqs [one_of_words [''loop'', ''for''], spaces1, opt (Seq (lit ''from'') spaces1),
           Grp 1 (plus (Cls Digit)), spaces1, one_of_words [''to'', ''until''], spaces1,
           Grp 2 (plus (Cls Digit))]"
| "pattern_regex ConditionalIf =
     seqs [lit ''if'', spaces1, Grp 1 (plus (Cls Word)), spaces1,
           Grp 2 (alts [Seq (lit ''equal'') (opt (Chr CHR ''s'')), lit ''=='', lit ''='']), spaces1,
           Grp 3 (plus (Cls Word)), spaces1, opt (Seq (lit ''then'') spaces1),
           one_of_words [''print'', ''show''], spaces1,
           opt (Cls (OneOf quote_chars)), Grp 4 (plus (Cls (NoneOf quote_chars))),
           opt (Cls (OneOf quote_chars))]"
| "pattern_regex EndProgram =
     seqs [one_of_words [''end'', ''stop'', ''terminate'', ''exit''], spaces1,
           opt (lit ''program'')]"
| "pattern_regex Comment =
     seqs [one_of_words [''comment'', ''note'', ''rem''], spaces1,
           Grp 1 (plus (Cls AnyButNewline))]"
| "pattern_regex Calculation =
     seqs [one_of_words [''calculate'', ''compute'', ''add'', ''subtract'', ''multiply'', ''divide''],
           spaces1, Grp 1 (plus (Cls Digit)), spaces1,
           Grp 2 (one_of_words [''plus'', ''minus'', ''times'', ''divided by'']), spaces1,
           Grp 3 (plus (Cls Digit))]"

text \<open>The \<open>"confidence"\<close> entries.\<close>

fun pattern_confidence :: "pattern_name \<Rightarrow> real" where
  "pattern_confidence PrintStatement = 0.9"
| "pattern_confidence VariableAssignment = 0.85"
| "pattern_confidence SimpleAssignment = 0.8"
| "pattern_confidence ForLoop = 0.9"
| "pattern_confidence ConditionalIf = 0.8"
| "pattern_confidence EndProgram = 0.95"
| "pattern_confidence Comment = 0.9"
| "pattern_confidence Calculation = 0.85"

text \<open>
  \<open>match.groups()[k - 1]\<close> is the text of group \<open>k\<close>, or \<open>None\<close> for a group that took no
  part in the match. An f-string prints \<open>None\<close> as that word; \<open>.upper()\<close> on it raises, and the
  loop goes on to the next pattern.
\<close>

definition group :: "captures \<Rightarrow> nat \<Rightarrow> string option" where
  "group caps k = map_of caps k"

fun fmt :: "string option \<Rightarrow> string" where
  "fmt None = ''None''"
| "fmt (Some t) = t"

definition operator_map :: "(string \<times> string) list" where
  "operator_map = [(''plus'', ''+''), (''minus'', ''-''), (''times'', ''*''), (''divided by'', ''/'')]"

definition dquote :: string where
  "dquote = [CHR 0x22]"

definition newline :: string where
  "newline = [CHR 0x0A]"

fun apply_template :: "pattern_name \<Rightarrow> captures \<Rightarrow> string option" where
  "apply_template PrintStatement caps =
     Some (''PRINT '' @ dquote @ fmt (group caps 1) @ dquote)"
| "apply_template VariableAssignment caps =
     (case group caps 1 of
        None \<Rightarrow> None
      | Some v \<Rightarrow> Some (''LET '' @ py_upper v @ '' = '' @ fmt (group caps 2)))"
| "apply_template SimpleAssignment caps =
     (case group caps 1 of
        None \<Rightarrow> None
      | Some v \<Rightarrow> Some (''LET '' @ py_upper v @ '' = '' @ fmt (group caps 2)))"
| "apply_template ForLoop caps =
     Some (''FOR I = '' @ fmt (group caps 1) @ '' TO '' @ fmt (group caps 2) @ newline
           @ ''PRINT I'' @ newline @ ''NEXT I'')"
| "apply_template ConditionalIf caps =
     (case group caps 1 of
        None \<Rightarrow> None
      | Some v \<Rightarrow> Some (''IF '' @ py_upper v @ '' = '' @ fmt (group caps 3) @ '' THEN PRINT ''
                        @ dquote @ fmt (group caps 4) @ dquote))"
| "apply_template EndProgram caps = Some ''END''"
| "apply_template Comment caps = Some (''REM '' @ fmt (group caps 1))"
| "apply_template Calculation caps =
     (let op = (case group caps 2 of
                  None \<Rightarrow> ''+''
                | Some w \<Rightarrow> (case map_of operator_map w of None \<Rightarrow> ''+'' | Some found \<Rightarrow> found))
      in Some (''LET RESULT = '' @ fmt (group caps 1) @ '' '' @ op @ '' '' @ fmt (group caps 3)
               @ newline @ ''PRINT '' @ dquote @ ''Result: '' @ dquote @ ''; RESULT''))"

definition pattern_can_translate :: "string \<Rightarrow> bool" where
  "pattern_can_translate ai_command =
     (let command_lower = py_strip (py_lower ai_command)
      in list_ex (\<lambda>p. rsearch (pattern_regex p) command_lower \<noteq> None) pattern_names)"

text \<open>The loop over the patterns in \<open>translate\<close>, from a given pattern on.\<close>

fun pattern_loop :: "pattern_name list \<Rightarrow> string \<Rightarrow> string \<Rightarrow> strategy_result" where
  "pattern_loop [] command_lower ai_command =
     NotTranslated ''No matching pattern found'' ai_command"
| "pattern_loop (p # ps) command_lower ai_command =
     (case rsearch (pattern_regex p) command_lower of
        None \<Rightarrow> pattern_loop ps command_lower ai_command
      | Some caps \<Rightarrow>
          (case apply_template p caps of
             None \<Rightarrow> pattern_loop ps command_lower ai_command
           | Some text \<Rightarrow>
               Translated \<lparr>translation = JStr text, confidence = pattern_confidence p,
                 strategy = ''pattern_based'', pattern_used = Some (pattern_key p),
                 original_command = ai_command, context_used = None\<rparr>))"

definition pattern_translate :: "string \<Rightarrow> py_dict option \<Rightarrow> strategy_result" where
  "pattern_translate ai_command context =
     pattern_loop pattern_names (py_strip (py_lower ai_command)) ai_command"

section \<open>\<open>AICommandTranslator\<close>\<close>

datatype strategy_kind = PatternBased | RuleBased | Contextual

text \<open>\<open>self.strategies\<close>, set in \<open>__init__\<close> and never changed.\<close>

definition strategies :: "strategy_kind list" where
  "strategies = [PatternBased, RuleBased, Contextual]"

fun can_translate :: "strategy_kind \<Rightarrow> string \<Rightarrow> bool" where
  "can_translate PatternBased ai_command = pattern_can_translate ai_command"
| "can_translate RuleBased ai_command = rule_can_translate ai_command"
| "can_translate Contextual ai_command = contextual_can_translate ai_command"

text \<open>
  Method dispatch on the strategy object. Only the contextual strategy has state, its
  \<open>context_history\<close>, which is passed in and returned.
\<close>

fun translate ::
  "strategy_kind \<Rightarrow> string list \<Rightarrow> string \<Rightarrow> py_dict option \<Rightarrow> strategy_result \<times> string list" where
  "translate PatternBased h ai_command context = (pattern_translate ai_command context, h)"
| "translate RuleBased h ai_command context = (rule_translate ai_command context, h)"
| "translate Contextual h ai_command context = contextual_translate h ai_command context"

text \<open>
  The \<open>for strategy in self.strategies\<close> loop of \<open>translate_command\<close>, with its \<open>break\<close>
  on a confidence of at least 0.8. The strategies of the model raise nothing, so the inner
  \<open>except\<close> has no counterpart.
\<close>

fun try_strategies ::
  "strategy_kind list \<Rightarrow> string \<Rightarrow> py_dict option \<Rightarrow> string list \<Rightarrow>
   strategy_success option \<Rightarrow> real \<Rightarrow> strategy_success option \<times> real \<times> string list" where
  "try_strategies [] ai_command context h best_result best_confidence =
     (best_result, best_confidence, h)"
| "try_strategies (s # ss) ai_command context h best_result best_confidence =
     (if can_translate s ai_command then
        (case translate s h ai_command context of
           (Translated result, h') \<Rightarrow>
             if confidence result > best_confidence then
               (if confidence result \<ge> 0.8 then (Some result, confidence result, h')
                else try_strategies ss ai_command context h' (Some result) (confidence result))
             else try_strategies ss ai_command context h' best_result best_confidence
         | (NotTranslated err cmd, h') \<Rightarrow>
             try_strategies ss ai_command context h' best_result best_confidence)
      else try_strategies ss ai_command context h best_result best_confidence)"

text \<open>
  The dictionaries \<open>translate_command\<close> returns. The identifier
  \<open>trans_<seconds>_<history length>\<close> is the pair of its two numbers.
\<close>

record final_result =
  tr_translation_id :: "int \<times> nat"
  tr_original_command :: string
  tr_translation :: json
  tr_confidence :: real
  tr_strategy_used :: string
  tr_validation :: validation
  tr_translation_time :: real
  tr_timestamp :: real
  tr_context_used :: bool

record error_result =
  te_translation_id :: "int \<times> nat"
  te_error :: string
  te_original_command :: string
  te_translation_time :: real
  te_timestamp :: real
  te_suggestions :: "string list"

datatype translate_result =
    TranslateOk final_result
  | TranslateFailed error_result

fun tr_success :: "translate_result \<Rightarrow> bool" where
  "tr_success (TranslateOk r) = True"
| "tr_success (TranslateFailed e) = False"

definition generate_suggestions :: "string \<Rightarrow> string list" where
  "generate_suggestions ai_command =
     (let command_lower = py_lower ai_command;
          suggestions =
            (if contains ''print'' command_lower then [''Try: PRINT '' @ dquote @ ''your text here'' @ dquote] else [])
            @ (if contains ''set'' command_lower \<or> contains ''let'' command_lower
               then [''Try: LET VARIABLE = value''] else [])
            @ (if contains ''loop'' command_lower \<or> contains ''for'' command_lower
               then [''Try: FOR I = 1 TO 10''] else [])
            @ (if contains ''if'' command_lower then [''Try: IF condition THEN action''] else [])
            @ (if contains ''end'' command_lower then [''Try: END''] else [])
      in if suggestions = []
         then [''Consider using basic BASIC commands like PRINT, LET, FOR, IF, or END'',
               ''Be more specific about what you want the program to do'']
         else suggestions)"

record translation_stats =
  total_translations :: nat
  successful_translations :: nat
  failed_translations :: nat
  average_confidence :: real
  strategy_usage :: "(string \<times> nat) list"
  average_translation_time :: real
  total_translation_time :: real

text \<open>\<open>d[k] = d.get(k, 0) + 1\<close> on an insertion-ordered dictionary.\<close>

fun dict_incr :: "string \<Rightarrow> (string \<times> nat) list \<Rightarrow> (string \<times> nat) list" where
  "dict_incr k [] = [(k, 1)]"
| "dict_incr k ((k', n) # d) = (if k = k' then (k', n + 1) # d else (k', n) # dict_incr k d)"

definition update_stats :: "real \<Rightarrow> bool \<Rightarrow> string \<Rightarrow> translation_stats \<Rightarrow> translation_stats" where
  "update_stats translation_time ok strategy_name st =
     (let st = st\<lparr>total_translations := total_translations st + 1,
                  total_translation_time := total_translation_time st + translation_time\<rparr>;
          st = (if ok then st\<lparr>successful_translations := successful_translations st + 1\<rparr>
                else st\<lparr>failed_translations := failed_translations st + 1\<rparr>);
          st = st\<lparr>average_translation_time :=
                    total_translation_time st / real (total_translations st)\<rparr>
      in st\<lparr>strategy_usage := dict_incr strategy_name (strategy_usage st)\<rparr>)"

record translator =
  context_history :: "string list"
  translation_history :: "translate_result list"
  stats :: translation_stats
  max_history_size :: nat

definition new_translator :: translator where
  "new_translator =
     \<lparr>context_history = [], translation_history = [],
      stats = \<lparr>total_translations = 0, successful_translations = 0, failed_translations = 0,
               average_confidence = 0, strategy_usage = [], average_translation_time = 0,
               total_translation_time = 0\<rparr>,
      max_history_size = 1000\<rparr>"

definition add_to_history :: "translate_result \<Rightarrow> translator \<Rightarrow> translator" where
  "add_to_history result tr =
     (let h = translation_history tr @ [result]
      in tr\<lparr>translation_history :=
              (if length h > max_history_size tr then last_n (max_history_size tr) h else h)\<rparr>)"

text \<open>
  The clock readings of one call, in the order they are taken: \<open>perf_counter()\<close> at entry,
  \<open>time()\<close> for the identifier, \<open>perf_counter()\<close> after the loop, \<open>time()\<close> for the timestamp.
\<close>

record translate_clock =
  perf_start :: real
  time_id :: real
  perf_end :: real
  time_stamp :: real

text \<open>
  \<open>translate_command\<close>. Nothing in its \<open>try\<close> block raises for a string command and a
  dictionary (or absent) context, so the outer \<open>except\<close> has no counterpart.
\<close>

definition translate_command ::
  "translator \<Rightarrow> translate_clock \<Rightarrow> string \<Rightarrow> py_dict option \<Rightarrow> translate_result \<times> translator" where
  "translate_command tr clock ai_command context =
     (let translation_id = (\<lfloor>time_id clock\<rfloor>, length (translation_history tr));
          (best_result, best_confidence, h) =
             try_strategies strategies ai_command context (context_history tr) None 0.0;
          tr = tr\<lparr>context_history := h\<rparr>;
          translation_time = (perf_end clock - perf_start clock) * 1000
      in case best_result of
           Some best \<Rightarrow>
             (let validation = validate_translation_any (translation best);
                  final_result =
                    \<lparr>tr_translation_id = translation_id, tr_original_command = ai_command,
                     tr_translation = translation best, tr_confidence = best_confidence,
                     tr_strategy_used = strategy best, tr_validation = validation,
                     tr_translation_time = translation_time, tr_timestamp = time_stamp clock,
                     tr_context_used = truthy_ctx context\<rparr>;
                  tr = tr\<lparr>stats := update_stats translation_time True (strategy best) (stats tr)\<rparr>
              in (TranslateOk final_result, add_to_history (TranslateOk final_result) tr))
         | None \<Rightarrow>
             (let error_result =
                    \<lparr>te_translation_id = translation_id,
                     te_error = ''No translation strategy could handle this command'',
                     te_original_command = ai_command, te_translation_time = translation_time,
                     te_timestamp = time_stamp clock,
                     te_suggestions = generate_suggestions ai_command\<rparr>;
                  tr = tr\<lparr>stats := update_stats translation_time False ''unknown'' (stats tr)\<rparr>
              in (TranslateFailed error_result, add_to_history (TranslateFailed error_result) tr)))"

section \<open>Providers (\<open>ai_command_sender\<close>)\<close>

text \<open>
  Exceptions are values. A \<open>BridgeError\<close> carries its message; \<open>BridgeErrorFrom p e\<close> is the
  \<open>BridgeError\<close> whose message is the prefix \<open>p\<close> followed by \<open>str(e)\<close>, raised by an
  \<open>except Exception as e\<close> handler.
\<close>

datatype exc =
    BridgeError string
  | BridgeErrorFrom string exc
  | AttributeError
  | TypeError
  | KeyError
  | IndexError
  | Exception string

text \<open>Sequencing of steps that may raise.\<close>

fun and_then :: "exc + 'a \<Rightarrow> ('a \<Rightarrow> exc + 'b) \<Rightarrow> exc + 'b" where
  "and_then (Inl e) f = Inl e"
| "and_then (Inr x) f = f x"

text \<open>\<open>x.get(key, default)\<close>: only a dictionary has the method.\<close>

fun py_get :: "json \<Rightarrow> string \<Rightarrow> json \<Rightarrow> exc + json" where
  "py_get (JObj kvs) key dflt = Inr (case map_of kvs key of None \<Rightarrow> dflt | Some v \<Rightarrow> v)"
| "py_get _ key dflt = Inl AttributeError"

text \<open>\<open>x[0]\<close>.\<close>

fun py_first :: "json \<Rightarrow> exc + json" where
  "py_first (JArr []) = Inl IndexError"
| "py_first (JArr (x # xs)) = Inr x"
| "py_first (JStr []) = Inl IndexError"
| "py_first (JStr (c # cs)) = Inr (JStr [c])"
| "py_first (JObj kvs) = Inl KeyError"
| "py_first _ = Inl TypeError"

text \<open>\<open>x.strip()\<close>: only a string has the method.\<close>

fun py_strip_any :: "json \<Rightarrow> exc + string" where
  "py_strip_any (JStr s) = Inr (py_strip s)"
| "py_strip_any _ = Inl AttributeError"

text \<open>The dictionary \<open>_parse_response\<close> returns (its \<open>success\<close> entry is always \<open>True\<close>).\<close>

record token_usage =
  prompt_tokens :: json
  completion_tokens :: json
  total_tokens :: json

record parsed_response =
  resp_content :: string
  resp_model :: json
  resp_usage :: token_usage
  resp_finish_reason :: json
  resp_provider :: string

definition openai_parse_body :: "json \<Rightarrow> json \<Rightarrow> exc + parsed_response" where
  "openai_parse_body self_model response_data =
     and_then (py_get response_data ''choices'' (JArr [])) (\<lambda>choices.
       if \<not> truthy choices then Inl (BridgeError ''No choices in OpenAI response'')
       else
         and_then (py_first choices) (\<lambda>choice0.
         and_then (py_get choice0 ''message'' (JObj [])) (\<lambda>message.
         and_then (py_get message ''content'' (JStr [])) (\<lambda>raw.
         and_then (py_strip_any raw) (\<lambda>content.
         and_then (py_get response_data ''usage'' (JObj [])) (\<lambda>usage.
         and_then (py_get response_data ''model'' self_model) (\<lambda>model.
         and_then (py_get usage ''prompt_tokens'' (JNum 0)) (\<lambda>pt.
         and_then (py_get usage ''completion_tokens'' (JNum 0)) (\<lambda>ct.
         and_then (py_get usage ''total_tokens'' (JNum 0)) (\<lambda>tt.
         and_then (py_get choice0 ''finish_reason'' (JStr ''unknown'')) (\<lambda>fr.
           Inr \<lparr>resp_content = content, resp_model = model,
                resp_usage = \<lparr>prompt_tokens = pt, completion_tokens = ct, total_tokens = tt\<rparr>,
                resp_finish_reason = fr, resp_provider = ''openai''\<rparr>)))))))))))"

text \<open>\<open>OpenAIProvider._parse_response\<close>: every exception of the body, its own included, is
  rewrapped by the handler.\<close>

definition openai_parse_response :: "json \<Rightarrow> json \<Rightarrow> exc + parsed_response" where
  "openai_parse_response self_model response_data =
     (case openai_parse_body self_model response_data of
        Inl e \<Rightarrow> Inl (BridgeErrorFrom ''Failed to parse OpenAI response: '' e)
      | Inr r \<Rightarrow> Inr r)"

definition google_parse_body :: "json \<Rightarrow> json \<Rightarrow> exc + parsed_response" where
  "google_parse_body self_model response_data =
     and_then (py_get response_data ''candidates'' (JArr [])) (\<lambda>candidates.
       if \<not> truthy candidates then Inl (BridgeError ''No candidates in Google Gemini response'')
       else
         and_then (py_first candidates) (\<lambda>candidate.
         and_then (py_get candidate ''content'' (JObj [])) (\<lambda>content.
         and_then (py_get content ''parts'' (JArr [])) (\<lambda>parts.
           if \<not> truthy parts then Inl (BridgeError ''No content parts in Google Gemini response'')
           else
             and_then (py_first parts) (\<lambda>part0.
             and_then (py_get part0 ''text'' (JStr [])) (\<lambda>raw.
             and_then (py_strip_any raw) (\<lambda>text_content.
             and_then (py_get response_data ''usageMetadata'' (JObj [])) (\<lambda>usage_metadata.
             and_then (py_get usage_metadata ''promptTokenCount'' (JNum 0)) (\<lambda>pt.
             and_then (py_get usage_metadata ''candidatesTokenCount'' (JNum 0)) (\<lambda>ct.
             and_then (py_get usage_metadata ''totalTokenCount'' (JNum 0)) (\<lambda>tt.
             and_then (py_get candidate ''finishReason'' (JStr ''unknown'')) (\<lambda>fr.
               Inr \<lparr>resp_content = text_content, resp_model = self_model,
                    resp_usage = \<lparr>prompt_tokens = pt, completion_tokens = ct, total_tokens = tt\<rparr>,
                    resp_finish_reason = fr, resp_provider = ''google''\<rparr>))))))))))))"

definition google_parse_response :: "json \<Rightarrow> json \<Rightarrow> exc + parsed_response" where
  "google_parse_response self_model response_data =
     (case google_parse_body self_model response_data of
        Inl e \<Rightarrow> Inl (BridgeErrorFrom ''Failed to parse Google Gemini response: '' e)
      | Inr r \<Rightarrow> Inr r)"

text \<open>
  Responses that are well formed but for their content, for each provider. OpenAI: the body
  is a dictionary, its \<open>usage\<close> entry is absent or a dictionary, its \<open>choices\<close> entry is a list
  whose first element is a dictionary, the \<open>message\<close> entry of that choice is absent or a
  dictionary, and the \<open>content\<close> entry of the message is absent or a string that strips to
  the empty string. Google: the body is a dictionary, its \<open>usageMetadata\<close> entry is absent or
  a dictionary, its \<open>candidates\<close> entry is a list whose first element is a dictionary, the
  \<open>content\<close> entry of that candidate is a dictionary whose \<open>parts\<close> entry is a list whose
  first element is a dictionary, and the \<open>text\<close> entry of that part is absent or a string that
  strips to the empty string.
\<close>

definition absent_or_blank :: "json option \<Rightarrow> bool" where
  "absent_or_blank field = (case field of None \<Rightarrow> True | Some (JStr s) \<Rightarrow> py_strip s = [] | Some _ \<Rightarrow> False)"

definition absent_or_dict :: "json option \<Rightarrow> bool" where
  "absent_or_dict field = (case field of None \<Rightarrow> True | Some (JObj kvs) \<Rightarrow> True | Some _ \<Rightarrow> False)"

fun as_dict :: "json option \<Rightarrow> py_dict option" where
  "as_dict (Some (JObj kvs)) = Some kvs"
| "as_dict _ = None"

fun first_dict :: "json option \<Rightarrow> py_dict option" where
  "first_dict (Some (JArr (JObj d # rest))) = Some d"
| "first_dict _ = None"

definition openai_content_empty :: "json \<Rightarrow> bool" where
  "openai_content_empty response_data =
     (case response_data of
        JObj kvs \<Rightarrow>
          absent_or_dict (map_of kvs ''usage'') \<and>
          (case first_dict (map_of kvs ''choices'') of
             None \<Rightarrow> False
           | Some choice0 \<Rightarrow>
               map_of choice0 ''message'' = None
               \<or> (case as_dict (map_of choice0 ''message'') of
                     None \<Rightarrow> False
                   | Some message \<Rightarrow> absent_or_blank (map_of message ''content'')))
      | _ \<Rightarrow> False)"

definition google_content_empty :: "json \<Rightarrow> bool" where
  "google_content_empty response_data =
     (case response_data of
        JObj kvs \<Rightarrow>
          absent_or_dict (map_of kvs ''usageMetadata'') \<and>
          (case first_dict (map_of kvs ''candidates'') of
             None \<Rightarrow> False
           | Some candidate \<Rightarrow>
               (case as_dict (map_of candidate ''content'') of
                  None \<Rightarrow> False
                | Some content \<Rightarrow>
                    (case first_dict (map_of content ''parts'') of
                       None \<Rightarrow> False
                     | Some part0 \<Rightarrow> absent_or_blank (map_of part0 ''text''))))
      | _ \<Rightarrow> False)"

subsection \<open>What \<open>send_command\<close> makes of a response\<close>

record response_validation =
  rv_is_valid :: bool
  rv_issues :: "string list"
  rv_suggestions :: "string list"

definition response_keywords :: "string list" where
  "response_keywords =
     [''PRINT'', ''LET'', ''FOR'', ''NEXT'', ''IF'', ''THEN'', ''GOTO'', ''END'', ''REM'']"

text \<open>\<open>re.findall(r"\d+\s+", content)\<close> is non-empty exactly when the pattern is found.\<close>

definition has_line_numbers :: "string \<Rightarrow> bool" where
  "has_line_numbers content = (rsearch (Seq (plus (Cls Digit)) (plus (Cls Space))) content \<noteq> None)"

definition validate_response :: "parsed_response \<Rightarrow> response_validation" where
  "validate_response response =
     (let content = resp_content response;
          validation = \<lparr>rv_is_valid = True, rv_issues = [], rv_suggestions = []\<rparr>
      in if py_strip content = []
         then validation\<lparr>rv_is_valid := False, rv_issues := [''Empty response'']\<rparr>
         else
           let content_upper = py_upper content;
               validation =
                 (if \<not> list_ex (\<lambda>keyword. contains keyword content_upper) response_keywords
                  then validation\<lparr>rv_issues := rv_issues validation @ [''No BASIC-M6502 keywords found''],
                         rv_suggestions := rv_suggestions validation
                            @ [''Response may not contain valid BASIC commands'']\<rparr>
                  else validation);
               validation =
                 (if \<not> has_line_numbers content
                  then validation\<lparr>rv_suggestions := rv_suggestions validation
                            @ [''Consider adding line numbers (10, 20, 30, etc.)'']\<rparr>
                  else validation)
           in if contains ''PRINT'' content_upper \<and> \<not> contains dquote content
              then validation\<lparr>rv_suggestions := rv_suggestions validation
                        @ [''PRINT statements should include quotes around text'']\<rparr>
              else validation)"

definition calculate_confidence :: "parsed_response \<Rightarrow> string \<Rightarrow> real" where
  "calculate_confidence response command =
     (let content = resp_content response
      in if py_strip content = [] then 0.0
         else
           let confidence = 0.5;
               content_upper = py_upper content;
               keyword_count =
                 count_present [''PRINT'', ''LET'', ''FOR'', ''NEXT'', ''IF'', ''THEN'', ''GOTO'', ''END'']
                   content_upper;
               confidence = confidence + min (real keyword_count * 0.1) 0.3;
               confidence = (if has_line_numbers content then confidence + 0.1 else confidence);
               confidence = (if contains dquote content \<and> contains ''PRINT'' content_upper
                             then confidence + 0.1 else confidence);
               confidence = (if contains ''error'' (py_lower content) \<or> contains ''cannot'' (py_lower content)
                             then confidence - 0.2 else confidence)
           in min (max confidence 0.0) 1.0)"

subsection \<open>Retries\<close>

text \<open>
  A provider object, as far as \<open>AICommandSender\<close> uses it. \<open>send_request\<close> talks to the
  network and updates the provider's rate-limit counters: it is a function of the state of
  everything outside the sender (type \<open>'w\<close>) that returns the response or the exception
  raised, and the new outside state. \<open>asyncio.sleep\<close> acts on that state too.
\<close>

record 'w ai_provider =
  prov_name :: string
  retry_attempts :: int
  send_request :: "string \<Rightarrow> py_dict option \<Rightarrow> 'w \<Rightarrow> (exc + parsed_response) \<times> 'w"

text \<open>What a call does to the outside, in order.\<close>

datatype effect = SendRequest string | Sleep nat

text \<open>
  The loop \<open>for attempt in range(provider.retry_attempts)\<close> of \<open>_send_with_retries\<close>, from a
  given attempt on, and the \<open>raise\<close> after it.
\<close>

function retry_loop ::
  "(nat \<Rightarrow> 'w \<Rightarrow> 'w) \<Rightarrow> 'w ai_provider \<Rightarrow> string \<Rightarrow> py_dict option \<Rightarrow> nat \<Rightarrow> exc option \<Rightarrow>
   'w \<Rightarrow> effect list \<Rightarrow> (exc + parsed_response) \<times> 'w \<times> effect list" where
  "retry_loop sleep provider command context attempt last_exception w trace =
     (if int attempt < retry_attempts provider then
        (case send_request provider command context w of
           (Inr response, w') \<Rightarrow> (Inr response, w', trace @ [SendRequest (prov_name provider)])
         | (Inl e, w') \<Rightarrow>
             if int attempt < retry_attempts provider - 1
             then retry_loop sleep provider command context (attempt + 1) (Some e)
                    (sleep (2 ^ attempt) w')
                    (trace @ [SendRequest (prov_name provider), Sleep (2 ^ attempt)])
             else retry_loop sleep provider command context (attempt + 1) (Some e) w'
                    (trace @ [SendRequest (prov_name provider)]))
      else
        (Inl (case last_exception of
                None \<Rightarrow> Exception ''All retry attempts failed''
              | Some e \<Rightarrow> e),
         w, trace))"
  by pat_completeness auto
termination
  by (relation "measure (\<lambda>(sleep, provider, command, context, attempt, last_exception, w, trace).
        nat (retry_attempts provider - int attempt))") auto

declare retry_loop.simps [simp del]

definition send_with_retries ::
  "(nat \<Rightarrow> 'w \<Rightarrow> 'w) \<Rightarrow> 'w ai_provider \<Rightarrow> string \<Rightarrow> py_dict option \<Rightarrow> 'w \<Rightarrow>
   (exc + parsed_response) \<times> 'w \<times> effect list" where
  "send_with_retries sleep provider command context w =
     retry_loop sleep provider command context 0 None w []"

section \<open>\<open>AICommandSender\<close>\<close>

text \<open>The dictionaries \<open>send_command\<close> returns, and the cache entries.\<close>

record send_result =
  sr_request_id :: "int \<times> nat"
  sr_provider :: string
  sr_command :: string
  sr_response :: string
  sr_confidence :: real
  sr_validation :: response_validation
  sr_response_time :: real
  sr_timestamp :: real
  sr_usage :: token_usage
  sr_cached :: bool

record send_error =
  se_request_id :: "int \<times> nat"
  se_error :: exc
  se_error_id :: string
  se_command :: string
  se_provider :: string
  se_response_time :: real
  se_timestamp :: real
  se_confidence :: real

datatype send_outcome =
    SendOk send_result
  | SendFailed send_error

record cache_entry =
  ce_response :: send_result
  ce_timestamp :: real

type_synonym response_cache = "(string \<times> cache_entry) list"

record provider_stat =
  ps_requests :: nat
  ps_successful :: nat
  ps_failed :: nat
  ps_average_time :: real

record sender_stats =
  total_requests :: nat
  successful_requests :: nat
  failed_requests :: nat
  average_response_time :: real
  total_response_time :: real
  provider_stats :: "(string \<times> provider_stat) list"

text \<open>
  The sender object. \<open>default_provider\<close>, \<open>fallback_provider\<close> and \<open>max_cache_size\<close> are the
  settings it reads.
\<close>

record 'w sender =
  providers :: "(string \<times> 'w ai_provider) list"
  default_provider :: string
  fallback_provider :: string
  request_history :: "send_outcome list"
  request_history_size :: nat
  send_stats :: sender_stats
  cache :: response_cache
  cache_enabled :: bool
  cache_ttl :: real
  max_cache_size :: nat

text \<open>
  What the sender uses from outside itself: \<open>asyncio.sleep\<close>, and the digest
  \<open>md5(json.dumps(key_data, sort_keys=True))\<close> of a key triple.
\<close>

record 'w runtime =
  rt_sleep :: "nat \<Rightarrow> 'w \<Rightarrow> 'w"
  rt_digest :: "string \<times> string option \<times> py_dict \<Rightarrow> string"

text \<open>
  What one call reads from the clocks and the error handler, in order: \<open>perf_counter()\<close> at
  entry, \<open>time()\<close> for the identifier, \<open>time()\<close> in the cache lookup, \<open>perf_counter()\<close> when
  the response or the exception arrives, \<open>time()\<close> for the timestamp of the result, \<open>time()\<close>
  when the result is cached, and the identifier \<open>log_error\<close> returns.
\<close>

record send_clock =
  sc_perf_start :: real
  sc_time_id :: real
  sc_time_lookup :: real
  sc_perf_end :: real
  sc_time_stamp :: real
  sc_time_store :: real
  sc_error_id :: string

fun dict_set :: "'k \<Rightarrow> 'v \<Rightarrow> ('k \<times> 'v) list \<Rightarrow> ('k \<times> 'v) list" where
  "dict_set k v [] = [(k, v)]"
| "dict_set k v ((k', v') # d) = (if k = k' then (k, v) # d else (k', v') # dict_set k v d)"

definition dict_del :: "'k \<Rightarrow> ('k \<times> 'v) list \<Rightarrow> ('k \<times> 'v) list" where
  "dict_del k d = filter (\<lambda>kv. fst kv \<noteq> k) d"

definition generate_cache_key ::
  "'w runtime \<Rightarrow> string \<Rightarrow> string option \<Rightarrow> py_dict option \<Rightarrow> string" where
  "generate_cache_key rt command provider context =
     rt_digest rt (command, provider, (case context of None \<Rightarrow> [] | Some c \<Rightarrow> c))"

text \<open>\<open>_get_cached_response\<close>: the cached result, if any, and the cache afterwards.\<close>

definition get_cached_response ::
  "real \<Rightarrow> response_cache \<Rightarrow> string \<Rightarrow> real \<Rightarrow> send_result option \<times> response_cache" where
  "get_cached_response ttl entries cache_key now =
     (case map_of entries cache_key of
        None \<Rightarrow> (None, entries)
      | Some cached_data \<Rightarrow>
          if now - ce_timestamp cached_data > ttl
          then (None, dict_del cache_key entries)
          else (Some ((ce_response cached_data)\<lparr>sr_cached := True\<rparr>), entries))"

text \<open>\<open>_cache_response\<close>, with its eviction of the 100 oldest entries.\<close>

definition cache_response ::
  "nat \<Rightarrow> response_cache \<Rightarrow> string \<Rightarrow> send_result \<Rightarrow> real \<Rightarrow> response_cache" where
  "cache_response max_size entries cache_key response now =
     (let entries = dict_set cache_key \<lparr>ce_response = response, ce_timestamp = now\<rparr> entries
      in if length entries > max_size
         then let oldest_keys =
                    map fst (take 100 (sort_key (\<lambda>kv. ce_timestamp (snd kv)) entries))
              in filter (\<lambda>kv. fst kv \<notin> set oldest_keys) entries
         else entries)"

definition select_provider :: "'w sender \<Rightarrow> string option \<Rightarrow> 'w ai_provider option" where
  "select_provider s preferred_provider =
     (let preferred =
            (case preferred_provider of
               None \<Rightarrow> None
             | Some p \<Rightarrow> if p \<noteq> [] then map_of (providers s) p else None)
      in case preferred of
           Some p \<Rightarrow> Some p
         | None \<Rightarrow>
             (case map_of (providers s) (default_provider s) of
                Some p \<Rightarrow> Some p
              | None \<Rightarrow>
                  (case map_of (providers s) (fallback_provider s) of
                     Some p \<Rightarrow> Some p
                   | None \<Rightarrow> (case providers s of [] \<Rightarrow> None | kv # _ \<Rightarrow> Some (snd kv)))))"

definition new_provider_stat :: provider_stat where
  "new_provider_stat = \<lparr>ps_requests = 0, ps_successful = 0, ps_failed = 0, ps_average_time = 0\<rparr>"

definition update_provider_stat :: "real \<Rightarrow> bool \<Rightarrow> provider_stat \<Rightarrow> provider_stat" where
  "update_provider_stat response_time ok ps =
     (let ps = ps\<lparr>ps_requests := ps_requests ps + 1\<rparr>;
          ps = (if ok then ps\<lparr>ps_successful := ps_successful ps + 1\<rparr>
                else ps\<lparr>ps_failed := ps_failed ps + 1\<rparr>)
      in ps\<lparr>ps_average_time :=
              (ps_average_time ps * real (ps_requests ps - 1) + response_time)
                / real (ps_requests ps)\<rparr>)"

definition update_send_stats :: "real \<Rightarrow> bool \<Rightarrow> string \<Rightarrow> sender_stats \<Rightarrow> sender_stats" where
  "update_send_stats response_time ok provider_name st =
     (let st = st\<lparr>total_requests := total_requests st + 1,
                  total_response_time := total_response_time st + response_time\<rparr>;
          st = (if ok then st\<lparr>successful_requests := successful_requests st + 1\<rparr>
                else st\<lparr>failed_requests := failed_requests st + 1\<rparr>);
          st = st\<lparr>average_response_time := total_response_time st / real (total_requests st)\<rparr>;
          current = (case map_of (provider_stats st) provider_name of
                       None \<Rightarrow> new_provider_stat
                     | Some ps \<Rightarrow> ps)
      in st\<lparr>provider_stats :=
              dict_set provider_name (update_provider_stat response_time ok current)
                (provider_stats st)\<rparr>)"

definition add_to_request_history :: "send_outcome \<Rightarrow> 'w sender \<Rightarrow> 'w sender" where
  "add_to_request_history outcome s =
     (let h = request_history s @ [outcome]
      in s\<lparr>request_history :=
             (if length h > request_history_size s then last_n (request_history_size s) h else h)\<rparr>)"

text \<open>The \<open>except Exception as e\<close> handler of \<open>send_command\<close>.\<close>

definition send_failed ::
  "'w sender \<Rightarrow> send_clock \<Rightarrow> int \<times> nat \<Rightarrow> string \<Rightarrow> string option \<Rightarrow> exc \<Rightarrow>
   send_outcome \<times> 'w sender" where
  "send_failed s clock request_id command provider e =
     (let response_time = (sc_perf_end clock - sc_perf_start clock) * 1000;
          s = s\<lparr>send_stats := update_send_stats response_time False ''unknown'' (send_stats s)\<rparr>;
          error_result =
            \<lparr>se_request_id = request_id, se_error = e, se_error_id = sc_error_id clock,
             se_command = command,
             se_provider = (case provider of
                              None \<Rightarrow> ''unknown''
                            | Some p \<Rightarrow> if p \<noteq> [] then p else ''unknown''),
             se_response_time = response_time, se_timestamp = sc_time_stamp clock,
             se_confidence = 0.0\<rparr>
      in (SendFailed error_result, add_to_request_history (SendFailed error_result) s))"

text \<open>
  \<open>send_command\<close>: the result, the sender afterwards, the outside afterwards, and what was
  done to the outside (provider calls and sleeps).
\<close>

definition send_command ::
  "'w runtime \<Rightarrow> 'w sender \<Rightarrow> send_clock \<Rightarrow> string \<Rightarrow> string option \<Rightarrow> py_dict option \<Rightarrow> 'w \<Rightarrow>
   send_outcome \<times> 'w sender \<times> 'w \<times> effect list" where
  "send_command rt s clock command provider context w =
     (let request_id = (\<lfloor>sc_time_id clock\<rfloor>, length (request_history s));
          cache_key = generate_cache_key rt command provider context;
          (cached_response, entries) =
             (if cache_enabled s
              then get_cached_response (cache_ttl s) (cache s) cache_key (sc_time_lookup clock)
              else (None, cache s));
          s = s\<lparr>cache := entries\<rparr>
      in case cached_response of
           Some hit \<Rightarrow> (SendOk hit, s, w, [])
         | None \<Rightarrow>
             (case select_provider s provider of
                None \<Rightarrow>
                  (let (outcome, s) =
                         send_failed s clock request_id command provider
                           (BridgeError ''No available AI providers'')
                   in (outcome, s, w, []))
              | Some selected_provider \<Rightarrow>
                  (case send_with_retries (rt_sleep rt) selected_provider command context w of
                     (Inl e, w', trace) \<Rightarrow>
                       (let (outcome, s) = send_failed s clock request_id command provider e
                        in (outcome, s, w', trace))
                   | (Inr response, w', trace) \<Rightarrow>
                       (let response_time = (sc_perf_end clock - sc_perf_start clock) * 1000;
                            validation_result = validate_response response;
                            confidence = calculate_confidence response command;
                            result =
                              \<lparr>sr_request_id = request_id,
                               sr_provider = prov_name selected_provider,
                               sr_command = command, sr_response = resp_content response,
                               sr_confidence = confidence, sr_validation = validation_result,
                               sr_response_time = response_time,
                               sr_timestamp = sc_time_stamp clock,
                               sr_usage = resp_usage response, sr_cached = False\<rparr>;
                            s = (if cache_enabled s
                                 then s\<lparr>cache := cache_response (max_cache_size s) (cache s)
                                                    cache_key result (sc_time_store clock)\<rparr>
                                 else s);
                            s = s\<lparr>send_stats := update_send_stats response_time True
                                                  (prov_name selected_provider) (send_stats s)\<rparr>
                        in (SendOk result, add_to_request_history (SendOk result) s, w', trace)))))"

text \<open>Cached results are stored with the flag \<open>cached\<close> unset.\<close>

definition cache_unflagged :: "response_cache \<Rightarrow> bool" where
  "cache_unflagged entries = list_all (\<lambda>kv. \<not> sr_cached (ce_response (snd kv))) entries"

subsection \<open>A sender with one provider\<close>

text \<open>
  A provider that answers every request with one BASIC line and counts the requests it
  receives (the outside state is that count), a sender configured with it, and the readings of
  two calls ten seconds apart.
\<close>

definition example_response :: parsed_response where
  "example_response =
     \<lparr>resp_content = ''10 PRINT '' @ dquote @ ''hi'' @ dquote, resp_model = JStr ''gpt-4'',
      resp_usage = \<lparr>prompt_tokens = JNum 12, completion_tokens = JNum 5, total_tokens = JNum 17\<rparr>,
      resp_finish_reason = JStr ''stop'', resp_provider = ''openai''\<rparr>"

definition example_provider :: "nat ai_provider" where
  "example_provider =
     \<lparr>prov_name = ''openai'', retry_attempts = 3,
      send_request = (\<lambda>command context w. (Inr example_response, w + 1))\<rparr>"

definition example_sender :: "nat sender" where
  "example_sender =
     \<lparr>providers = [(''openai'', example_provider)], default_provider = ''openai'',
      fallback_provider = ''google'', request_history = [], request_history_size = 1000,
      send_stats = \<lparr>total_requests = 0, successful_requests = 0, failed_requests = 0,
                    average_response_time = 0, total_response_time = 0, provider_stats = []\<rparr>,
      cache = [], cache_enabled = True, cache_ttl = 3600, max_cache_size = 1000\<rparr>"

definition example_runtime :: "nat runtime" where
  "example_runtime = \<lparr>rt_sleep = (\<lambda>delay w. w), rt_digest = (\<lambda>key_data. fst key_data)\<rparr>"

definition example_clock1 :: send_clock where
  "example_clock1 =
     \<lparr>sc_perf_start = 0, sc_time_id = 100, sc_time_lookup = 100, sc_perf_end = 1,
      sc_time_stamp = 101, sc_time_store = 101, sc_error_id = []\<rparr>"

definition example_clock2 :: send_clock where
  "example_clock2 =
     \<lparr>sc_perf_start = 10, sc_time_id = 110, sc_time_lookup = 110, sc_perf_end = 11,
      sc_time_stamp = 111, sc_time_store = 111, sc_error_id = []\<rparr>"

definition example_result :: send_result where
  "example_result =
     \<lparr>sr_request_id = (100, 0), sr_provider = ''openai'', sr_command = ''print hi'',
      sr_response = ''10 PRINT '' @ dquote @ ''hi'' @ dquote, sr_confidence = 0.8,
      sr_validation = \<lparr>rv_is_valid = True, rv_issues = [], rv_suggestions = []\<rparr>,
      sr_response_time = 1000, sr_timestamp = 101,
      sr_usage = \<lparr>prompt_tokens = JNum 12, completion_tokens = JNum 5, total_tokens = JNum 17\<rparr>,
      sr_cached = False\<rparr>"

section \<open>\<open>AILayerIntegration\<close>\<close>

datatype interaction_type =
    CommandExecution | CodeGeneration | Debugging | Explanation | InteractiveSession
  | BatchProcessing

datatype interaction_status = Pending | InProgress | Completed | Failed | Cancelled

text \<open>The record \<open>AICommandExecutor.execute_command\<close> returns; it raises nothing.\<close>

record execution_record =
  ex_command :: json
  ex_success :: bool
  ex_output :: json
  ex_error :: "string option"
  ex_execution_time :: real

text \<open>An error message is taken from a result dictionary or is \<open>str(e)\<close> of an exception.\<close>

datatype error_text = ErrorEntry json | ErrorOf exc

record interaction =
  interaction_id :: string
  kind :: interaction_type
  status :: interaction_status
  created_at :: real
  updated_at :: real
  prompt :: string
  request_context :: py_dict
  ai_response :: "json option"
  translated_commands :: "json option"
  execution_results :: "execution_record list option"
  feedback :: "string option"
  confidence_score :: "json option"
  error_message :: "error_text option"
  ai_processing_time :: "real option"
  translation_time :: "real option"
  execution_time :: "real option"
  total_time :: "real option"















subsection \<open>A bridge with fixed answers\<close>







section \<open>Properties\<close>

subsection \<open>Counting substrings is insensitive to stripping\<close>


lemma count_sub_spaces:
  "sub \<noteq> [] \<Longrightarrow> \<forall>c\<in>set sub. \<not> is_space c \<Longrightarrow> \<forall>c\<in>set ws. is_space c \<Longrightarrow> count_sub sub ws = 0"
proof (induction ws)
  case Nil
  then show ?case by simp
next
  case (Cons w ws)
  have "\<not> prefix sub (w # ws)"
  proof
    assume "prefix sub (w # ws)"
    with Cons.prems(1) have "hd sub = w" by (cases sub) auto
    with Cons.prems show False by (cases sub) auto
  qed
  with Cons show ?case by simp
qed

lemma prefix_append_spaces:
  assumes "\<forall>c\<in>set sub. \<not> is_space c" "\<forall>c\<in>set ws. is_space c"
  shows "prefix sub (s @ ws) \<longleftrightarrow> prefix sub s"
proof
  assume "prefix sub (s @ ws)"
  then consider "prefix sub s" | us where "us \<noteq> []" "sub = s @ us" "prefix us ws"
    unfolding prefix_append by (cases "sub = s") auto
  then show "prefix sub s"
  proof cases
    case 1
    then show ?thesis .
  next
    case 2
    then obtain u us' where "us = u # us'" by (cases us) auto
    with 2 have "u \<in> set sub" "u \<in> set ws" by (auto simp: prefix_def)
    with assms show ?thesis by blast
  qed
next
  assume "prefix sub s"
  then show "prefix sub (s @ ws)" by (rule prefix_prefix)
qed

lemma count_sub_append_spaces:
  "sub \<noteq> [] \<Longrightarrow> \<forall>c\<in>set sub. \<not> is_space c \<Longrightarrow> \<forall>c\<in>set ws. is_space c \<Longrightarrow>
   count_sub sub (s @ ws) = count_sub sub s"
proof (induction sub s rule: count_sub.induct)
  case (1 sub)
  then show ?case using count_sub_spaces [of sub ws] by simp
next
  case (2 sub c t)
  show ?case
  proof (cases "prefix sub (c # t)")
    case True
    then have len: "length sub \<le> length (c # t)" by (rule prefix_length_le)
    have p: "prefix sub ((c # t) @ ws)" using True by (rule prefix_prefix)
    have "count_sub sub (drop (length sub) (c # t) @ ws) = count_sub sub (drop (length sub) (c # t))"
      using 2 True by simp
    moreover have "drop (length sub) ((c # t) @ ws) = drop (length sub) (c # t) @ ws"
    proof -
      have "length sub - length (c # t) = 0" using len by simp
      then show ?thesis unfolding drop_append by (simp only: drop_0)
    qed
    ultimately have "count_sub sub (drop (length sub) ((c # t) @ ws)) = count_sub sub (drop (length sub) (c # t))"
      by (simp only:)
    moreover have "count_sub sub ((c # t) @ ws) = 1 + count_sub sub (drop (length sub) ((c # t) @ ws))"
      using p 2(3) by simp
    moreover have "count_sub sub (c # t) = 1 + count_sub sub (drop (length sub) (c # t))"
      using True 2(3) by simp
    ultimately show ?thesis by (simp only:)
  next
    case False
    then have "\<not> prefix sub ((c # t) @ ws)"
      using prefix_append_spaces [OF 2(4) 2(5), of "c # t"] by simp
    with False 2 show ?thesis by simp
  qed
qed

lemma count_sub_dropWhile:
  "sub \<noteq> [] \<Longrightarrow> \<forall>c\<in>set sub. \<not> is_space c \<Longrightarrow> count_sub sub (dropWhile is_space s) = count_sub sub s"
proof (induction s)
  case Nil
  then show ?case by simp
next
  case (Cons a s)
  show ?case
  proof (cases "is_space a")
    case True
    have "\<not> prefix sub (a # s)"
    proof
      assume "prefix sub (a # s)"
      with Cons.prems(1) have "a \<in> set sub" by (cases sub) auto
      with Cons.prems True show False by blast
    qed
    with Cons True show ?thesis by simp
  next
    case False
    then show ?thesis by simp
  qed
qed

lemma count_sub_strip:
  assumes "sub \<noteq> []" "\<forall>c\<in>set sub. \<not> is_space c"
  shows "count_sub sub (py_strip s) = count_sub sub s"
proof -
  let ?d = "dropWhile is_space s"
  have "rev ?d = takeWhile is_space (rev ?d) @ dropWhile is_space (rev ?d)" by simp
  then have "?d = rev (dropWhile is_space (rev ?d)) @ rev (takeWhile is_space (rev ?d))"
    by (metis rev_append rev_rev_ident)
  then have d: "?d = py_strip s @ rev (takeWhile is_space (rev ?d))"
    by (simp add: py_strip_def)
  have "\<forall>c\<in>set (rev (takeWhile is_space (rev ?d))). is_space c"
    by (auto dest: set_takeWhileD)
  then have "count_sub sub (py_strip s @ rev (takeWhile is_space (rev ?d))) = count_sub sub (py_strip s)"
    using assms by (rule count_sub_append_spaces [rotated 2])
  with d have "count_sub sub ?d = count_sub sub (py_strip s)" by simp
  then show ?thesis using count_sub_dropWhile [OF assms, of s] by simp
qed

lemma kw_no_space:
  "\<forall>c\<in>set ''FOR''. \<not> is_space c" "\<forall>c\<in>set ''NEXT''. \<not> is_space c"
  "\<forall>c\<in>set ''IF''. \<not> is_space c" "\<forall>c\<in>set ''THEN''. \<not> is_space c"
  by (simp_all add: is_space_def)

lemma valid_balanced_stripped:
  assumes "is_valid (validate_translation t)"
  shows "count_sub ''FOR'' (py_strip (py_upper t)) = count_sub ''NEXT'' (py_strip (py_upper t))"
    and "count_sub ''IF'' (py_strip (py_upper t)) = count_sub ''THEN'' (py_strip (py_upper t))"
  using assms
  by (auto simp: validate_translation_def score_and_validity_def check_if_then_def
      check_for_next_def Let_def validation0_def split: if_splits)


text \<open>
  Claim C5. Whenever the validator marks a statement valid, its upper-cased text has as
  many occurrences of \<open>FOR\<close> as of \<open>NEXT\<close>, and as many of \<open>IF\<close> as of \<open>THEN\<close>
  (occurrences counted as \<open>str.count\<close> does).
\<close>

theorem validator_balance:
  "is_valid (validate_translation t) \<Longrightarrow>
     count_sub ''FOR'' (py_upper t) = count_sub ''NEXT'' (py_upper t)
   \<and> count_sub ''IF'' (py_upper t) = count_sub ''THEN'' (py_upper t)"
  using valid_balanced_stripped [of t]
  by (simp add: count_sub_strip kw_no_space)

theorem validator_balance_witness:
  "is_valid (validate_translation ''FOR I = 1 TO 3 : NEXT I'')
   \<and> count_sub ''FOR'' (py_upper ''FOR I = 1 TO 3 : NEXT I'') = 1
   \<and> count_sub ''NEXT'' (py_upper ''FOR I = 1 TO 3 : NEXT I'') = 1"
  using validator_balance [of "''FOR I = 1 TO 3 : NEXT I''"]
  by code_simp

text \<open>
  Claim C6. For a statement that is not all whitespace, the syntax score is
  \<open>max 0 (1 - 0.2 * number of issues)\<close> and the statement is valid exactly when the issue
  list is empty; an all-whitespace (or empty) statement is invalid.
\<close>

theorem validator_score_validity:
  "(py_strip t \<noteq> [] \<longrightarrow>
      syntax_score (validate_translation t)
        = max 0 (1 - 0.2 * real (length (issues (validate_translation t))))
      \<and> (is_valid (validate_translation t) \<longleftrightarrow> issues (validate_translation t) = []))
   \<and> (py_strip t = [] \<longrightarrow> \<not> is_valid (validate_translation t))"
  by (simp add: validate_translation_def score_and_validity_def validation0_def Let_def max_def)

theorem validator_score_validity_witness:
  "py_strip ''PRINT X'' \<noteq> []
   \<and> syntax_score (validate_translation ''PRINT X'') = 0.8
   \<and> length (issues (validate_translation ''PRINT X'')) = 1
   \<and> \<not> is_valid (validate_translation ''PRINT X'')
   \<and> py_strip ''  '' = []
   \<and> \<not> is_valid (validate_translation ''  '')"
proof -
  have a: "py_strip ''PRINT X'' \<noteq> []" by code_simp
  have b: "py_strip ''  '' = []" by code_simp
  have c: "issues (validate_translation ''PRINT X'') = [PrintMissingQuotes]" by code_simp
  show ?thesis
    using validator_score_validity [of "''PRINT X''"] validator_score_validity [of "''  ''"] a b c
    by simp
qed


subsection \<open>Rule-based confidence\<close>

lemma conf_formula:
  "calculate_rule_confidence command t
     = min 1.0 (0.5 + min (0.1 * real (count_present (map fst basic_keywords) command)) 0.3
                    + min (0.1 * real (count_present basic_syntax t)) 0.2)"
  by (simp add: calculate_rule_confidence_def Let_def min.commute mult.commute)

lemma conf_bounds:
  "0.5 \<le> calculate_rule_confidence command t \<and> calculate_rule_confidence command t \<le> 1"
  by (simp add: calculate_rule_confidence_def Let_def min_def)

lemma rule_translate_conf:
  "rule_translate ai_command ctx = Translated r \<Longrightarrow>
    \<exists>t. translation r = JStr t \<and> confidence r = calculate_rule_confidence (py_strip (py_lower ai_command)) t"
  by (auto simp: rule_translate_def Let_def split: if_splits)

text \<open>
  Claim C7. For every command text and emitted translation the rule-based confidence is
  \<open>min 1 (0.5 + min (0.1 * k) 0.3 + min (0.1 * m) 0.2)\<close>, with \<open>k\<close> the number of rule
  keywords occurring in the command and \<open>m\<close> the number of basic syntax words occurring in
  the translation; it lies between 0.5 and 1; and this is the confidence of every successful
  result of the rule-based \<open>translate\<close>.
\<close>

theorem rule_confidence_formula:
  "calculate_rule_confidence command emitted
     = min 1.0 (0.5 + min (0.1 * real (count_present (map fst basic_keywords) command)) 0.3
                    + min (0.1 * real (count_present basic_syntax emitted)) 0.2)
   \<and> 0.5 \<le> calculate_rule_confidence command emitted
   \<and> calculate_rule_confidence command emitted \<le> 1
   \<and> (\<forall>r. rule_translate ai_command ctx = Translated r \<longrightarrow>
         (\<exists>t. translation r = JStr t
            \<and> confidence r
                = min 1.0 (0.5 + min (0.1 * real (count_present (map fst basic_keywords)
                                                  (py_strip (py_lower ai_command)))) 0.3
                               + min (0.1 * real (count_present basic_syntax t)) 0.2)
            \<and> 0.5 \<le> confidence r \<and> confidence r \<le> 1))"
proof (intro conjI allI impI)
  show "calculate_rule_confidence command emitted
     = min 1.0 (0.5 + min (0.1 * real (count_present (map fst basic_keywords) command)) 0.3
                    + min (0.1 * real (count_present basic_syntax emitted)) 0.2)"
    by (rule conf_formula)
  show "0.5 \<le> calculate_rule_confidence command emitted"
    using conf_bounds by blast
  show "calculate_rule_confidence command emitted \<le> 1"
    using conf_bounds by blast
next
  fix r
  assume "rule_translate ai_command ctx = Translated r"
  then obtain t where t: "translation r = JStr t"
    "confidence r = calculate_rule_confidence (py_strip (py_lower ai_command)) t"
    using rule_translate_conf by blast
  show "\<exists>t. translation r = JStr t
            \<and> confidence r
                = min 1.0 (0.5 + min (0.1 * real (count_present (map fst basic_keywords)
                                                  (py_strip (py_lower ai_command)))) 0.3
                               + min (0.1 * real (count_present basic_syntax t)) 0.2)
            \<and> 0.5 \<le> confidence r \<and> confidence r \<le> 1"
    using t conf_formula [of "py_strip (py_lower ai_command)" t]
      conf_bounds [of "py_strip (py_lower ai_command)" t]
    by (intro exI [of _ t]) simp
qed

theorem rule_confidence_formula_witness:
  "rule_translate ''print hello'' None
     = Translated \<lparr>translation = JStr ''PRINT HELLO'', confidence = 0.7,
         strategy = ''rule_based'', pattern_used = None,
         original_command = ''print hello'', context_used = None\<rparr>
   \<and> (0.5::real) \<le> 0.7 \<and> (0.7::real) \<le> 1"
proof -
  have e: "rule_translate ''print hello'' None
     = Translated \<lparr>translation = JStr ''PRINT HELLO'', confidence = 0.7,
         strategy = ''rule_based'', pattern_used = None,
         original_command = ''print hello'', context_used = None\<rparr>"
    by code_simp
  show ?thesis
    using rule_confidence_formula [of "''print hello''" "''PRINT HELLO''" "''print hello''" None] e
    by simp
qed

subsection \<open>The contextual strategy on repeat requests\<close>

lemma nth_last2:
  assumes "h \<noteq> []"
  shows "(let history = h @ [c]; history = (if length history > max_history then last_n max_history history else history)
          in history \<noteq> [] \<and> length history > 1 \<and> history ! (length history - 2) = last h)"
proof -
  obtain b x where h: "h = b @ [x]" using assms by (metis rev_exhaust)
  show ?thesis
  proof (cases "length (h @ [c]) > max_history")
    case True
    have l: "length (last_n max_history (h @ [c])) = max_history"
      using True by (simp add: last_n_def)
    have "last_n max_history (h @ [c]) ! (max_history - 2) = (h @ [c]) ! (length (h @ [c]) - max_history + (max_history - 2))"
      using True unfolding last_n_def by (subst nth_drop) (auto simp: max_history_def)
    also have "length (h @ [c]) - max_history + (max_history - 2) = length b"
      using True h by (simp add: max_history_def)
    also have "(h @ [c]) ! length b = x" using h by (simp add: nth_append)
    finally have n: "last_n max_history (h @ [c]) ! (max_history - 2) = x" .
    have ne: "last_n max_history (h @ [c]) \<noteq> []"
      using l by (auto simp: max_history_def)
    show ?thesis using True l h n ne by (simp add: Let_def max_history_def)
  next
    case False
    then show ?thesis using h by (simp add: Let_def nth_append)
  qed
qed


lemma contains_spaces:
  "sub \<noteq> [] \<Longrightarrow> \<forall>c\<in>set sub. \<not> is_space c \<Longrightarrow> \<forall>c\<in>set ws. is_space c \<Longrightarrow> \<not> contains sub ws"
proof (induction ws)
  case Nil
  then show ?case by simp
next
  case (Cons w ws)
  have "\<not> prefix sub (w # ws)"
  proof
    assume "prefix sub (w # ws)"
    with Cons.prems(1) have "w \<in> set sub" by (cases sub) auto
    with Cons.prems show False by auto
  qed
  with Cons show ?case by simp
qed

lemma contains_append_spaces:
  "sub \<noteq> [] \<Longrightarrow> \<forall>c\<in>set sub. \<not> is_space c \<Longrightarrow> \<forall>c\<in>set ws. is_space c \<Longrightarrow>
   contains sub (s @ ws) = contains sub s"
proof (induction s)
  case Nil
  then show ?case using contains_spaces [of sub ws] by simp
next
  case (Cons a s)
  have "prefix sub ((a # s) @ ws) \<longleftrightarrow> prefix sub (a # s)"
    using Cons.prems by (intro prefix_append_spaces) auto
  with Cons show ?case by simp
qed

lemma contains_dropWhile:
  "sub \<noteq> [] \<Longrightarrow> \<forall>c\<in>set sub. \<not> is_space c \<Longrightarrow> contains sub (dropWhile is_space s) = contains sub s"
proof (induction s)
  case Nil
  then show ?case by simp
next
  case (Cons a s)
  show ?case
  proof (cases "is_space a")
    case True
    have "\<not> prefix sub (a # s)"
    proof
      assume "prefix sub (a # s)"
      with Cons.prems(1) have "a \<in> set sub" by (cases sub) auto
      with Cons.prems True show False by blast
    qed
    with Cons True show ?thesis by simp
  next
    case False
    then show ?thesis by simp
  qed
qed

lemma strip_decomp:
  "\<exists>ws. (\<forall>c\<in>set ws. is_space c) \<and> dropWhile is_space s = py_strip s @ ws"
proof -
  let ?d = "dropWhile is_space s"
  have "rev ?d = takeWhile is_space (rev ?d) @ dropWhile is_space (rev ?d)" by simp
  then have "?d = rev (dropWhile is_space (rev ?d)) @ rev (takeWhile is_space (rev ?d))"
    by (metis rev_append rev_rev_ident)
  then have "?d = py_strip s @ rev (takeWhile is_space (rev ?d))"
    by (simp add: py_strip_def)
  moreover have "\<forall>c\<in>set (rev (takeWhile is_space (rev ?d))). is_space c"
    by (auto dest: set_takeWhileD)
  ultimately show ?thesis by blast
qed

lemma contains_strip:
  assumes "sub \<noteq> []" "\<forall>c\<in>set sub. \<not> is_space c"
  shows "contains sub (py_strip s) = contains sub s"
proof -
  obtain ws where ws: "\<forall>c\<in>set ws. is_space c" "dropWhile is_space s = py_strip s @ ws"
    using strip_decomp by blast
  have "contains sub (py_strip s @ ws) = contains sub (py_strip s)"
    using assms ws(1) by (rule contains_append_spaces)
  with ws(2) have "contains sub (dropWhile is_space s) = contains sub (py_strip s)" by simp
  then show ?thesis using contains_dropWhile [OF assms, of s] by simp
qed

lemma ctx_words_no_space:
  "\<forall>c\<in>set ''it''. \<not> is_space c" "\<forall>c\<in>set ''that''. \<not> is_space c"
  "\<forall>c\<in>set ''again''. \<not> is_space c" "\<forall>c\<in>set ''repeat''. \<not> is_space c"
  by (simp_all add: is_space_def)

text \<open>
  Claim C10, as stated: an input that contains \<open>again\<close> or \<open>repeat\<close> and contains neither
  \<open>it\<close> nor \<open>that\<close> gets the previously submitted text back with confidence 0.8. It fails
  for \<open>repeat IT\<close> after \<open>print hello\<close>: the input contains \<open>repeat\<close> and, as written,
  neither \<open>it\<close> nor \<open>that\<close>, but \<open>translate\<close> tests the lower-cased text, takes the branch
  for \<open>it\<close> and returns \<open>PRINT IT\<close> with confidence 0.7.
\<close>

theorem contextual_repeat_counterexample:
  "(contains ''again'' ''repeat IT'' \<or> contains ''repeat'' ''repeat IT'')
   \<and> \<not> contains ''it'' ''repeat IT''
   \<and> \<not> contains ''that'' ''repeat IT''
   \<and> fst (contextual_translate [''print hello''] ''repeat IT'' None)
       = Translated \<lparr>translation = JStr ''PRINT IT'', confidence = 0.7,
           strategy = ''contextual'', pattern_used = None,
           original_command = ''repeat IT'', context_used = Some False\<rparr>"
  by code_simp

text \<open>
  Claim C10, amended. For an input whose lower-cased text contains \<open>again\<close> or \<open>repeat\<close> and
  contains neither \<open>it\<close> nor \<open>that\<close>: when a text was submitted to the contextual strategy
  before, \<open>translate\<close> returns the most recent one verbatim with confidence 0.8; with no
  earlier submission it returns \<open>REM Nothing to repeat\<close> with confidence 0.2.
\<close>

theorem contextual_repeat:
  assumes "contains ''again'' (py_lower ai_command) \<or> contains ''repeat'' (py_lower ai_command)"
    and "\<not> contains ''it'' (py_lower ai_command)"
    and "\<not> contains ''that'' (py_lower ai_command)"
  shows "(h \<noteq> [] \<longrightarrow>
            (\<exists>r. fst (contextual_translate h ai_command ctx) = Translated r
               \<and> translation r = JStr (last h) \<and> confidence r = 0.8))
       \<and> (h = [] \<longrightarrow>
            (\<exists>r. fst (contextual_translate h ai_command ctx) = Translated r
               \<and> translation r = JStr ''REM Nothing to repeat'' \<and> confidence r = 0.2))"
proof -
  let ?cl = "py_strip (py_lower ai_command)"
  have a: "contains ''again'' ?cl \<or> contains ''repeat'' ?cl"
    using assms(1) by (simp add: contains_strip ctx_words_no_space)
  have b: "\<not> contains ''it'' ?cl" "\<not> contains ''that'' ?cl"
    using assms(2,3) by (simp_all add: contains_strip ctx_words_no_space)
  show ?thesis
  proof (intro conjI impI)
    assume ne: "h \<noteq> []"
    show "\<exists>r. fst (contextual_translate h ai_command ctx) = Translated r
               \<and> translation r = JStr (last h) \<and> confidence r = 0.8"
      using a b nth_last2 [OF ne, of ai_command]
      by (auto simp: contextual_translate_def Let_def)
  next
    assume e: "h = []"
    show "\<exists>r. fst (contextual_translate h ai_command ctx) = Translated r
               \<and> translation r = JStr ''REM Nothing to repeat'' \<and> confidence r = 0.2"
      using a b e by (auto simp: contextual_translate_def Let_def max_history_def)
  qed
qed


theorem contextual_repeat_witness:
  "(contains ''again'' (py_lower ''once again'') \<or> contains ''repeat'' (py_lower ''once again''))
   \<and> \<not> contains ''it'' (py_lower ''once again'')
   \<and> \<not> contains ''that'' (py_lower ''once again'')
   \<and> (\<exists>r. fst (contextual_translate [''print hello''] ''once again'' None) = Translated r
          \<and> translation r = JStr ''print hello'' \<and> confidence r = 0.8)
   \<and> (\<exists>r. fst (contextual_translate [] ''once again'' None) = Translated r
          \<and> translation r = JStr ''REM Nothing to repeat'' \<and> confidence r = 0.2)"
proof -
  have a: "contains ''again'' (py_lower ''once again'') \<or> contains ''repeat'' (py_lower ''once again'')"
    by code_simp
  have b: "\<not> contains ''it'' (py_lower ''once again'')" by code_simp
  have c: "\<not> contains ''that'' (py_lower ''once again'')" by code_simp
  show ?thesis
    using contextual_repeat [OF a b c, of "[''print hello'']" None]
      contextual_repeat [OF a b c, of "[]" None] a b c
    by simp
qed


subsection \<open>The engine always has a candidate\<close>


lemma contextual_success:
  "\<exists>r h'. contextual_translate h cmd ctx = (Translated r, h') \<and> 0 < confidence r"
  by (simp add: contextual_translate_def Let_def split: json.splits list.splits)

lemma try_strategies_some:
  "Contextual \<in> set ss \<or> best \<noteq> None \<Longrightarrow> (best = None \<longrightarrow> bc \<le> 0) \<Longrightarrow>
   fst (try_strategies ss cmd ctx h best bc) \<noteq> None"
proof (induction ss arbitrary: h best bc)
  case Nil
  then show ?case by simp
next
  case (Cons s ss)
  show ?case
  proof (cases "s = Contextual")
    case True
    obtain r h' where r: "contextual_translate h cmd ctx = (Translated r, h')" "0 < confidence r"
      using contextual_success by blast
    show ?thesis
    proof (cases "confidence r > bc")
      case gt: True
      have "fst (try_strategies ss cmd ctx h' (Some r) (confidence r)) \<noteq> None"
        by (rule Cons.IH) simp_all
      with True r gt show ?thesis
        by (simp add: contextual_can_translate_def)
    next
      case le: False
      with r Cons.prems(2) have b: "best \<noteq> None" by auto
      have "fst (try_strategies ss cmd ctx h' best bc) \<noteq> None"
        using b by (intro Cons.IH) auto
      with True r le show ?thesis
        by (simp add: contextual_can_translate_def)
    qed
  next
    case False
    with Cons.prems(1) have pre: "Contextual \<in> set ss \<or> best \<noteq> None" by auto
    have keep: "\<And>h'. fst (try_strategies ss cmd ctx h' best bc) \<noteq> None"
      using pre Cons.prems(2) by (intro Cons.IH) auto
    have upd: "\<And>h' r. fst (try_strategies ss cmd ctx h' (Some r) (confidence r)) \<noteq> None"
      by (intro Cons.IH) simp_all
    show ?thesis
      using keep upd
      by (auto split: prod.splits strategy_result.splits)
  qed
qed

lemma translate_command_success:
  "tr_success (fst (translate_command tr clock ai_command ctx))"
proof -
  have "fst (try_strategies strategies ai_command ctx (context_history tr) None 0.0) \<noteq> None"
    by (rule try_strategies_some) (simp_all add: strategies_def)
  then show ?thesis
    by (auto simp: translate_command_def Let_def split: prod.splits option.splits)
qed

text \<open>
  Claim C9. For every input text the contextual strategy accepts the command and its
  \<open>translate\<close> succeeds with a positive confidence; hence the strategy loop of
  \<open>translate_command\<close> ends with a candidate, and \<open>translate_command\<close> returns a success
  result: the branch \<open>No translation strategy could handle this command\<close> is not taken.
\<close>

theorem no_strategy_branch_unreachable:
  "contextual_can_translate ai_command
   \<and> (\<exists>r h'. contextual_translate h ai_command ctx = (Translated r, h') \<and> 0 < confidence r)
   \<and> fst (try_strategies strategies ai_command ctx h None 0.0) \<noteq> None
   \<and> tr_success (fst (translate_command tr clock ai_command ctx))"
proof (intro conjI)
  show "contextual_can_translate ai_command"
    by (simp add: contextual_can_translate_def)
  show "\<exists>r h'. contextual_translate h ai_command ctx = (Translated r, h') \<and> 0 < confidence r"
    by (rule contextual_success)
  show "fst (try_strategies strategies ai_command ctx h None 0.0) \<noteq> None"
    by (rule try_strategies_some) (simp_all add: strategies_def)
  show "tr_success (fst (translate_command tr clock ai_command ctx))"
    by (rule translate_command_success)
qed

subsection \<open>The scenario \<open>asdkjqwe nonsense\<close>\<close>

lemma nonsense_lower: "py_strip (py_lower ''asdkjqwe nonsense'') = ''asdkjqwe nonsense''"
  by code_simp

lemma nonsense_pattern: "\<not> pattern_can_translate ''asdkjqwe nonsense''"
  by code_simp

lemma nonsense_rule: "\<not> rule_can_translate ''asdkjqwe nonsense''"
  by code_simp

lemma nonsense_words:
  "\<not> contains ''it'' ''asdkjqwe nonsense''" "\<not> contains ''that'' ''asdkjqwe nonsense''"
  "\<not> contains ''again'' ''asdkjqwe nonsense''" "\<not> contains ''repeat'' ''asdkjqwe nonsense''"
  "\<not> contains ''now'' ''asdkjqwe nonsense''" "\<not> contains ''next'' ''asdkjqwe nonsense''"
  by code_simp+

lemma nonsense_contextual:
  "\<exists>h'. contextual_translate h ''asdkjqwe nonsense'' ctx
     = (Translated \<lparr>translation = JStr ''REM asdkjqwe nonsense'', confidence = 0.4,
          strategy = ''contextual'', pattern_used = None,
          original_command = ''asdkjqwe nonsense'', context_used = Some (truthy_ctx ctx)\<rparr>, h')"
  unfolding contextual_translate_def nonsense_lower
  by (simp add: nonsense_words Let_def del: contains.simps)

lemma nonsense_try:
  "\<exists>h'. try_strategies strategies ''asdkjqwe nonsense'' ctx h None 0.0
     = (Some \<lparr>translation = JStr ''REM asdkjqwe nonsense'', confidence = 0.4,
          strategy = ''contextual'', pattern_used = None,
          original_command = ''asdkjqwe nonsense'', context_used = Some (truthy_ctx ctx)\<rparr>, 0.4, h')"
proof -
  obtain h' where "contextual_translate h ''asdkjqwe nonsense'' ctx
     = (Translated \<lparr>translation = JStr ''REM asdkjqwe nonsense'', confidence = 0.4,
          strategy = ''contextual'', pattern_used = None,
          original_command = ''asdkjqwe nonsense'', context_used = Some (truthy_ctx ctx)\<rparr>, h')"
    using nonsense_contextual by blast
  then show ?thesis
    by (simp add: strategies_def nonsense_pattern nonsense_rule contextual_can_translate_def)
qed

text \<open>
  Claim C8, as stated: \<open>translate_command\<close> on \<open>asdkjqwe nonsense\<close> returns a contextual
  result with confidence strictly below 0.4. It fails on a fresh translator: the default
  branch of the contextual strategy assigns exactly 0.4.
\<close>

theorem nonsense_confidence_counterexample:
  "\<not> (case fst (translate_command new_translator
                  \<lparr>perf_start = 0, time_id = 0, perf_end = 0, time_stamp = 0\<rparr>
                  ''asdkjqwe nonsense'' None) of
        TranslateOk r \<Rightarrow> tr_strategy_used r = ''contextual'' \<and> tr_confidence r < 0.4
      | TranslateFailed e \<Rightarrow> False)"
proof -
  obtain h' where "try_strategies strategies ''asdkjqwe nonsense'' None (context_history new_translator) None 0.0
     = (Some \<lparr>translation = JStr ''REM asdkjqwe nonsense'', confidence = 0.4,
          strategy = ''contextual'', pattern_used = None,
          original_command = ''asdkjqwe nonsense'', context_used = Some (truthy_ctx None)\<rparr>, 0.4, h')"
    using nonsense_try by blast
  then show ?thesis
    by (simp add: translate_command_def Let_def)
qed


text \<open>
  Claim C8, amended. For the input \<open>asdkjqwe nonsense\<close>, in every translator state and with
  any context, \<open>translate_command\<close> returns a success result of the contextual strategy, the
  comment \<open>REM asdkjqwe nonsense\<close>, with confidence exactly 0.4.
\<close>

theorem nonsense_contextual_fallback:
  "\<exists>r. fst (translate_command tr clock ''asdkjqwe nonsense'' ctx) = TranslateOk r
       \<and> tr_strategy_used r = ''contextual''
       \<and> tr_translation r = JStr ''REM asdkjqwe nonsense''
       \<and> tr_confidence r = 0.4"
proof -
  obtain h' where "try_strategies strategies ''asdkjqwe nonsense'' ctx (context_history tr) None 0.0
     = (Some \<lparr>translation = JStr ''REM asdkjqwe nonsense'', confidence = 0.4,
          strategy = ''contextual'', pattern_used = None,
          original_command = ''asdkjqwe nonsense'', context_used = Some (truthy_ctx ctx)\<rparr>, 0.4, h')"
    using nonsense_try by blast
  then show ?thesis
    by (simp add: translate_command_def Let_def)
qed



subsection \<open>Retry bound\<close>


lemma retry_step_fail_more:
  assumes "send_request p command context w = (Inl e, w')"
    and "int attempt < retry_attempts p - 1"
  shows "retry_loop sleep p command context attempt prev w trace
       = retry_loop sleep p command context (attempt + 1) (Some e) (sleep (2 ^ attempt) w')
           (trace @ [SendRequest (prov_name p), Sleep (2 ^ attempt)])"
  using assms by (subst retry_loop.simps) simp

lemma retry_step_fail_last:
  assumes "send_request p command context w = (Inl e, w')"
    and "int attempt = retry_attempts p - 1"
  shows "retry_loop sleep p command context attempt prev w trace
       = (Inl e, w', trace @ [SendRequest (prov_name p)])"
proof -
  have "retry_loop sleep p command context attempt prev w trace
       = retry_loop sleep p command context (attempt + 1) (Some e) w'
           (trace @ [SendRequest (prov_name p)])"
    using assms by (subst retry_loop.simps) simp
  also have "\<dots> = (Inl e, w', trace @ [SendRequest (prov_name p)])"
    using assms(2) by (subst retry_loop.simps) simp
  finally show ?thesis .
qed

text \<open>
  Claim C1. For a provider with \<open>retry_attempts = 3\<close> whose \<open>send_request\<close> fails on every
  call, \<open>_send_with_retries\<close> calls \<open>send_request\<close> exactly three times, sleeps \<open>2^0\<close> after
  the first failure and \<open>2^1\<close> after the second, does not sleep after the third, and raises
  the exception of the third call.
\<close>

theorem retry_bound:
  assumes "retry_attempts p = 3"
    and "\<forall>cmd ctx w. isl (fst (send_request p cmd ctx w))"
  shows "\<exists>e1 w1 e2 w2 e3 w3.
           send_request p command context w = (Inl e1, w1)
         \<and> send_request p command context (sleep (2 ^ 0) w1) = (Inl e2, w2)
         \<and> send_request p command context (sleep (2 ^ 1) w2) = (Inl e3, w3)
         \<and> send_with_retries sleep p command context w
             = (Inl e3, w3,
                [SendRequest (prov_name p), Sleep (2 ^ 0), SendRequest (prov_name p), Sleep (2 ^ 1),
                 SendRequest (prov_name p)])"
proof -
  have fails: "\<And>v. \<exists>e v'. send_request p command context v = (Inl e, v')"
  proof -
    fix v
    have "isl (fst (send_request p command context v))" using assms(2) by blast
    then show "\<exists>e v'. send_request p command context v = (Inl e, v')"
      by (cases "send_request p command context v") (auto simp: isl_def)
  qed
  obtain e1 w1 where s1: "send_request p command context w = (Inl e1, w1)"
    using fails by blast
  obtain e2 w2 where s2: "send_request p command context (sleep (2 ^ 0) w1) = (Inl e2, w2)"
    using fails by blast
  obtain e3 w3 where s3: "send_request p command context (sleep (2 ^ 1) w2) = (Inl e3, w3)"
    using fails by blast
  have "send_with_retries sleep p command context w
      = retry_loop sleep p command context 1 (Some e1) (sleep (2 ^ 0) w1)
          [SendRequest (prov_name p), Sleep (2 ^ 0)]"
    unfolding send_with_retries_def
    using retry_step_fail_more [OF s1, of 0 sleep None "[]"] assms(1) by simp
  also have "\<dots> = retry_loop sleep p command context 2 (Some e2) (sleep (2 ^ 1) w2)
          [SendRequest (prov_name p), Sleep (2 ^ 0), SendRequest (prov_name p), Sleep (2 ^ 1)]"
    using retry_step_fail_more [OF s2, of 1 sleep "Some e1"] assms(1) by (simp add: numeral_2_eq_2)
  also have "\<dots> = (Inl e3, w3,
          [SendRequest (prov_name p), Sleep (2 ^ 0), SendRequest (prov_name p), Sleep (2 ^ 1),
           SendRequest (prov_name p)])"
    using retry_step_fail_last [OF s3, of 2 sleep "Some e2"] assms(1) by (simp add: numeral_2_eq_2)
  finally show ?thesis using s1 s2 s3 by blast
qed

theorem retry_bound_witness:
  "retry_attempts \<lparr>prov_name = ''openai'', retry_attempts = 3,
       send_request = (\<lambda>cmd ctx (w::nat). (Inl (BridgeError ''OpenAI API timeout''), w + 1))\<rparr> = 3
   \<and> send_with_retries (\<lambda>d w. w)
        \<lparr>prov_name = ''openai'', retry_attempts = 3,
         send_request = (\<lambda>cmd ctx (w::nat). (Inl (BridgeError ''OpenAI API timeout''), w + 1))\<rparr>
        ''print hello'' None 0
      = (Inl (BridgeError ''OpenAI API timeout''), 3,
         [SendRequest ''openai'', Sleep 1, SendRequest ''openai'', Sleep 2, SendRequest ''openai''])"
  using retry_bound [of "\<lparr>prov_name = ''openai'', retry_attempts = 3,
       send_request = (\<lambda>cmd ctx (w::nat). (Inl (BridgeError ''OpenAI API timeout''), w + 1))\<rparr>"
       "''print hello''" None 0 "\<lambda>d w. w"]
  by simp



subsection \<open>Parsing a response with no content\<close>


lemma openai_no_choices:
  "\<not> truthy (case map_of kvs ''choices'' of None \<Rightarrow> JArr [] | Some v \<Rightarrow> v) \<Longrightarrow>
   openai_parse_response m (JObj kvs)
     = Inl (BridgeErrorFrom ''Failed to parse OpenAI response: ''
             (BridgeError ''No choices in OpenAI response''))"
  by (simp add: openai_parse_response_def openai_parse_body_def)

lemma google_no_candidates:
  "\<not> truthy (case map_of kvs ''candidates'' of None \<Rightarrow> JArr [] | Some v \<Rightarrow> v) \<Longrightarrow>
   google_parse_response m (JObj kvs)
     = Inl (BridgeErrorFrom ''Failed to parse Google Gemini response: ''
             (BridgeError ''No candidates in Google Gemini response''))"
  by (simp add: google_parse_response_def google_parse_body_def)

lemma as_dict_Some: "as_dict x = Some d \<Longrightarrow> x = Some (JObj d)"
  by (cases x rule: as_dict.cases) simp_all

lemma first_dict_Some: "first_dict x = Some d \<Longrightarrow> \<exists>rest. x = Some (JArr (JObj d # rest))"
  by (cases x rule: first_dict.cases) simp_all

lemma absent_or_dict_get:
  "absent_or_dict (map_of kvs k) \<Longrightarrow> \<exists>u. py_get (JObj kvs) k (JObj []) = Inr (JObj u)"
  by (auto simp: absent_or_dict_def split: option.splits json.splits)

lemma absent_or_blank_strip:
  "absent_or_blank (map_of kvs k) \<Longrightarrow>
   and_then (py_get (JObj kvs) k (JStr [])) py_strip_any = Inr []"
  by (auto simp: absent_or_blank_def py_strip_def split: option.splits json.splits)

lemma openai_empty_content_success:
  assumes "openai_content_empty response_data"
  shows "\<exists>r. openai_parse_response m response_data = Inr r \<and> resp_content r = []"
proof -
  from assms obtain kvs where d: "response_data = JObj kvs"
    by (auto simp: openai_content_empty_def split: json.splits)
  from assms d obtain u where u: "py_get (JObj kvs) ''usage'' (JObj []) = Inr (JObj u)"
    using absent_or_dict_get [of kvs "''usage''"] by (auto simp: openai_content_empty_def)
  from assms d obtain choice0 where c: "first_dict (map_of kvs ''choices'') = Some choice0"
    and m: "map_of choice0 ''message'' = None
      \<or> (\<exists>message. as_dict (map_of choice0 ''message'') = Some message
            \<and> absent_or_blank (map_of message ''content''))"
    by (auto simp: openai_content_empty_def split: option.splits)
  from c obtain rest where ch: "map_of kvs ''choices'' = Some (JArr (JObj choice0 # rest))"
    using first_dict_Some by blast
  from m obtain message where
    msg: "py_get (JObj choice0) ''message'' (JObj []) = Inr (JObj message)"
    and blank: "absent_or_blank (map_of message ''content'')"
  proof
    assume a: "map_of choice0 ''message'' = None"
    show ?thesis
      by (rule that [of "[]"]) (simp_all add: a absent_or_blank_def)
  next
    assume "\<exists>message. as_dict (map_of choice0 ''message'') = Some message
            \<and> absent_or_blank (map_of message ''content'')"
    then obtain message where a: "as_dict (map_of choice0 ''message'') = Some message"
      and b: "absent_or_blank (map_of message ''content'')" by blast
    from a have "map_of choice0 ''message'' = Some (JObj message)" by (rule as_dict_Some)
    then show ?thesis using b by (intro that [of message]) simp_all
  qed
  have strip: "and_then (py_get (JObj message) ''content'' (JStr [])) py_strip_any = Inr []"
    using blank by (rule absent_or_blank_strip)
  then obtain raw where raw: "py_get (JObj message) ''content'' (JStr []) = Inr raw"
    "py_strip_any raw = Inr []"
    by (cases "py_get (JObj message) ''content'' (JStr [])") auto
  show ?thesis
    unfolding d openai_parse_response_def openai_parse_body_def
    using u ch msg raw by (simp del: py_get.simps add: py_get.simps(1) [of kvs "''choices''"]
        py_get.simps(1) [of kvs "''model''"] py_get.simps(1) [of u] py_get.simps(1) [of choice0 "''finish_reason''"])
qed

lemma empty_content_downstream:
  "resp_content r = [] \<Longrightarrow>
   \<not> rv_is_valid (validate_response r) \<and> rv_issues (validate_response r) = [''Empty response'']
   \<and> calculate_confidence r command = 0"
  by (simp add: validate_response_def calculate_confidence_def py_strip_def)


lemma google_empty_content_success:
  assumes "google_content_empty response_data"
  shows "\<exists>r. google_parse_response m response_data = Inr r \<and> resp_content r = []"
proof -
  from assms obtain kvs where d: "response_data = JObj kvs"
    by (auto simp: google_content_empty_def split: json.splits)
  from assms d obtain u where u: "py_get (JObj kvs) ''usageMetadata'' (JObj []) = Inr (JObj u)"
    using absent_or_dict_get [of kvs "''usageMetadata''"] by (auto simp: google_content_empty_def)
  from assms d obtain candidate content part0 where
    c: "first_dict (map_of kvs ''candidates'') = Some candidate"
    and co: "as_dict (map_of candidate ''content'') = Some content"
    and pa: "first_dict (map_of content ''parts'') = Some part0"
    and blank: "absent_or_blank (map_of part0 ''text'')"
    by (auto simp: google_content_empty_def split: option.splits)
  from c obtain rest where ch: "map_of kvs ''candidates'' = Some (JArr (JObj candidate # rest))"
    using first_dict_Some by blast
  from co have cont: "map_of candidate ''content'' = Some (JObj content)" by (rule as_dict_Some)
  from pa obtain parts where parts: "map_of content ''parts'' = Some (JArr (JObj part0 # parts))"
    using first_dict_Some by blast
  have "and_then (py_get (JObj part0) ''text'' (JStr [])) py_strip_any = Inr []"
    using blank by (rule absent_or_blank_strip)
  then obtain raw where raw: "py_get (JObj part0) ''text'' (JStr []) = Inr raw"
    "py_strip_any raw = Inr []"
    by (cases "py_get (JObj part0) ''text'' (JStr [])") auto
  show ?thesis
    unfolding d google_parse_response_def google_parse_body_def
    using u ch cont parts raw
    by (simp del: py_get.simps add: py_get.simps(1) [of kvs "''candidates''"]
        py_get.simps(1) [of candidate] py_get.simps(1) [of content] py_get.simps(1) [of u])
qed

lemma google_no_parts:
  assumes "map_of kvs ''candidates'' = Some (JArr (JObj candidate # rest))"
    and "map_of candidate ''content'' = None
       \<or> (\<exists>content. map_of candidate ''content'' = Some (JObj content)
             \<and> \<not> truthy (case map_of content ''parts'' of None \<Rightarrow> JArr [] | Some v \<Rightarrow> v))"
  shows "google_parse_response m (JObj kvs)
     = Inl (BridgeErrorFrom ''Failed to parse Google Gemini response: ''
             (BridgeError ''No content parts in Google Gemini response''))"
  using assms by (auto simp: google_parse_response_def google_parse_body_def)

lemma parse_response_null_entries:
  "openai_parse_response m (JObj [(''choices'', JArr [JObj [(''message'', JNull)]])])
     = Inl (BridgeErrorFrom ''Failed to parse OpenAI response: '' AttributeError)"
  "openai_parse_response m
     (JObj [(''choices'', JArr [JObj [(''message'', JObj [(''content'', JStr [])])]]),
            (''usage'', JNull)])
     = Inl (BridgeErrorFrom ''Failed to parse OpenAI response: '' AttributeError)"
  "openai_parse_response m (JObj [(''choices'', JArr [JObj [(''message'', JObj [(''content'', JNull)])]])])
     = Inl (BridgeErrorFrom ''Failed to parse OpenAI response: '' AttributeError)"
  by (simp_all add: openai_parse_response_def openai_parse_body_def py_strip_def)

text \<open>
  Claim C3, as stated: a response whose content field is empty or absent makes
  \<open>_parse_response\<close> raise instead of returning a successful result with empty content. It
  fails for an OpenAI body whose first choice has the content \<open>""\<close>: the parse succeeds.
\<close>

theorem parse_response_empty_content_counterexample:
  "openai_parse_response (JStr ''gpt-4'')
     (JObj [(''choices'', JArr [JObj [(''message'', JObj [(''content'', JStr [])])]])])
   = Inr \<lparr>resp_content = [], resp_model = JStr ''gpt-4'',
          resp_usage = \<lparr>prompt_tokens = JNum 0, completion_tokens = JNum 0, total_tokens = JNum 0\<rparr>,
          resp_finish_reason = JStr ''unknown'', resp_provider = ''openai''\<rparr>"
  by (simp add: openai_parse_response_def openai_parse_body_def py_strip_def)

text \<open>
  Claim C3, amended. For a response that is well formed but for its content, in the sense of
  \<open>openai_content_empty\<close> and \<open>google_content_empty\<close> (the body, the first choice or
  candidate and the first part are dictionaries, the usage entry and the message are absent or
  dictionaries, and the content field is absent or a string that strips to the empty string),
  \<open>_parse_response\<close> returns a successful result with the empty string as content;
  \<open>_validate_response\<close> then marks it invalid with the one issue \<open>Empty response\<close> and
  \<open>_calculate_confidence\<close> gives it 0. For a body that is a dictionary, \<open>_parse_response\<close>
  raises a \<open>BridgeError\<close> when the \<open>choices\<close> entry (OpenAI) or the \<open>candidates\<close> entry (Google)
  is absent, empty or otherwise false, and (Google) when the first candidate is a dictionary
  whose \<open>content\<close> is absent, or is a dictionary whose \<open>parts\<close> entry is absent, empty or
  otherwise false.
\<close>

theorem parse_response_empty_content:
  "(openai_content_empty response_data \<longrightarrow>
      (\<exists>r. openai_parse_response m response_data = Inr r \<and> resp_content r = []
         \<and> \<not> rv_is_valid (validate_response r)
         \<and> rv_issues (validate_response r) = [''Empty response'']
         \<and> calculate_confidence r command = 0))
   \<and> (google_content_empty response_data \<longrightarrow>
      (\<exists>r. google_parse_response m response_data = Inr r \<and> resp_content r = []
         \<and> \<not> rv_is_valid (validate_response r)
         \<and> rv_issues (validate_response r) = [''Empty response'']
         \<and> calculate_confidence r command = 0))
   \<and> (\<not> truthy (case map_of kvs ''choices'' of None \<Rightarrow> JArr [] | Some v \<Rightarrow> v) \<longrightarrow>
        openai_parse_response m (JObj kvs)
          = Inl (BridgeErrorFrom ''Failed to parse OpenAI response: ''
                  (BridgeError ''No choices in OpenAI response'')))
   \<and> (\<not> truthy (case map_of kvs ''candidates'' of None \<Rightarrow> JArr [] | Some v \<Rightarrow> v) \<longrightarrow>
        google_parse_response m (JObj kvs)
          = Inl (BridgeErrorFrom ''Failed to parse Google Gemini response: ''
                  (BridgeError ''No candidates in Google Gemini response'')))
   \<and> (map_of kvs ''candidates'' = Some (JArr (JObj candidate # rest))
        \<and> (map_of candidate ''content'' = None
            \<or> (\<exists>content. map_of candidate ''content'' = Some (JObj content)
                  \<and> \<not> truthy (case map_of content ''parts'' of None \<Rightarrow> JArr [] | Some v \<Rightarrow> v))) \<longrightarrow>
        google_parse_response m (JObj kvs)
          = Inl (BridgeErrorFrom ''Failed to parse Google Gemini response: ''
                  (BridgeError ''No content parts in Google Gemini response'')))"
proof (intro conjI impI)
  assume "openai_content_empty response_data"
  then obtain r where "openai_parse_response m response_data = Inr r" "resp_content r = []"
    using openai_empty_content_success by blast
  then show "\<exists>r. openai_parse_response m response_data = Inr r \<and> resp_content r = []
         \<and> \<not> rv_is_valid (validate_response r)
         \<and> rv_issues (validate_response r) = [''Empty response'']
         \<and> calculate_confidence r command = 0"
    using empty_content_downstream [of r command] by blast
next
  assume "google_content_empty response_data"
  then obtain r where "google_parse_response m response_data = Inr r" "resp_content r = []"
    using google_empty_content_success by blast
  then show "\<exists>r. google_parse_response m response_data = Inr r \<and> resp_content r = []
         \<and> \<not> rv_is_valid (validate_response r)
         \<and> rv_issues (validate_response r) = [''Empty response'']
         \<and> calculate_confidence r command = 0"
    using empty_content_downstream [of r command] by blast
next
  assume "\<not> truthy (case map_of kvs ''choices'' of None \<Rightarrow> JArr [] | Some v \<Rightarrow> v)"
  then show "openai_parse_response m (JObj kvs)
          = Inl (BridgeErrorFrom ''Failed to parse OpenAI response: ''
                  (BridgeError ''No choices in OpenAI response''))"
    by (rule openai_no_choices)
next
  assume "\<not> truthy (case map_of kvs ''candidates'' of None \<Rightarrow> JArr [] | Some v \<Rightarrow> v)"
  then show "google_parse_response m (JObj kvs)
          = Inl (BridgeErrorFrom ''Failed to parse Google Gemini response: ''
                  (BridgeError ''No candidates in Google Gemini response''))"
    by (rule google_no_candidates)
next
  assume "map_of kvs ''candidates'' = Some (JArr (JObj candidate # rest))
        \<and> (map_of candidate ''content'' = None
            \<or> (\<exists>content. map_of candidate ''content'' = Some (JObj content)
                  \<and> \<not> truthy (case map_of content ''parts'' of None \<Rightarrow> JArr [] | Some v \<Rightarrow> v)))"
  then show "google_parse_response m (JObj kvs)
          = Inl (BridgeErrorFrom ''Failed to parse Google Gemini response: ''
                  (BridgeError ''No content parts in Google Gemini response''))"
    using google_no_parts by blast
qed

theorem parse_response_empty_content_witness:
  "openai_content_empty (JObj [(''choices'', JArr [JObj [(''message'', JObj [(''content'', JStr '' '')])]])])
   \<and> (\<exists>r. openai_parse_response (JStr ''gpt-4'')
             (JObj [(''choices'', JArr [JObj [(''message'', JObj [(''content'', JStr '' '')])]])]) = Inr r
          \<and> resp_content r = [] \<and> \<not> rv_is_valid (validate_response r))
   \<and> google_content_empty
        (JObj [(''candidates'', JArr [JObj [(''content'', JObj [(''parts'', JArr [JObj []])])]])])
   \<and> (\<exists>r. google_parse_response (JStr ''gemini'')
             (JObj [(''candidates'', JArr [JObj [(''content'', JObj [(''parts'', JArr [JObj []])])]])]) = Inr r
          \<and> resp_content r = [] \<and> \<not> rv_is_valid (validate_response r))
   \<and> openai_parse_response (JStr ''gpt-4'') (JObj [(''choices'', JArr [])])
        = Inl (BridgeErrorFrom ''Failed to parse OpenAI response: ''
                (BridgeError ''No choices in OpenAI response''))
   \<and> google_parse_response (JStr ''gemini'') (JObj [])
        = Inl (BridgeErrorFrom ''Failed to parse Google Gemini response: ''
                (BridgeError ''No candidates in Google Gemini response''))
   \<and> google_parse_response (JStr ''gemini'') (JObj [(''candidates'', JArr [JObj []])])
        = Inl (BridgeErrorFrom ''Failed to parse Google Gemini response: ''
                (BridgeError ''No content parts in Google Gemini response''))"
proof -
  have a: "openai_content_empty
      (JObj [(''choices'', JArr [JObj [(''message'', JObj [(''content'', JStr '' '')])]])])"
    by code_simp
  have b: "google_content_empty
      (JObj [(''candidates'', JArr [JObj [(''content'', JObj [(''parts'', JArr [JObj []])])]])])"
    by code_simp
  have c: "\<not> truthy (case map_of [(''choices'', JArr [])] ''choices'' of None \<Rightarrow> JArr [] | Some v \<Rightarrow> v)"
    by simp
  have d: "\<not> truthy (case map_of ([] :: py_dict) ''candidates'' of None \<Rightarrow> JArr [] | Some v \<Rightarrow> v)"
    by simp
  have e: "map_of [(''candidates'', JArr [JObj []])] ''candidates'' = Some (JArr (JObj [] # []))
        \<and> (map_of ([] :: py_dict) ''content'' = None
            \<or> (\<exists>content. map_of ([] :: py_dict) ''content'' = Some (JObj content)
                  \<and> \<not> truthy (case map_of content ''parts'' of None \<Rightarrow> JArr [] | Some v \<Rightarrow> v)))"
    by simp
  have A: "\<exists>r. openai_parse_response (JStr ''gpt-4'')
             (JObj [(''choices'', JArr [JObj [(''message'', JObj [(''content'', JStr '' '')])]])]) = Inr r
          \<and> resp_content r = [] \<and> \<not> rv_is_valid (validate_response r)"
    using a parse_response_empty_content [of
        "JObj [(''choices'', JArr [JObj [(''message'', JObj [(''content'', JStr '' '')])]])]"
        "JStr ''gpt-4''" "[]" "[]" "[]" "[]"]
    by blast
  have B: "\<exists>r. google_parse_response (JStr ''gemini'')
             (JObj [(''candidates'', JArr [JObj [(''content'', JObj [(''parts'', JArr [JObj []])])]])]) = Inr r
          \<and> resp_content r = [] \<and> \<not> rv_is_valid (validate_response r)"
    using b parse_response_empty_content [of
        "JObj [(''candidates'', JArr [JObj [(''content'', JObj [(''parts'', JArr [JObj []])])]])]"
        "JStr ''gemini''" "[]" "[]" "[]" "[]"]
    by blast
  have C: "openai_parse_response (JStr ''gpt-4'') (JObj [(''choices'', JArr [])])
        = Inl (BridgeErrorFrom ''Failed to parse OpenAI response: ''
                (BridgeError ''No choices in OpenAI response''))"
    using c parse_response_empty_content [of JNull "JStr ''gpt-4''" "[]" "[(''choices'', JArr [])]" "[]" "[]"]
    by blast
  have D: "google_parse_response (JStr ''gemini'') (JObj [])
        = Inl (BridgeErrorFrom ''Failed to parse Google Gemini response: ''
                (BridgeError ''No candidates in Google Gemini response''))"
    using d parse_response_empty_content [of JNull "JStr ''gemini''" "[]" "[]" "[]" "[]"]
    by blast
  have E: "google_parse_response (JStr ''gemini'') (JObj [(''candidates'', JArr [JObj []])])
        = Inl (BridgeErrorFrom ''Failed to parse Google Gemini response: ''
                (BridgeError ''No content parts in Google Gemini response''))"
    using e parse_response_empty_content [of JNull "JStr ''gemini''" "[]" "[(''candidates'', JArr [JObj []])]" "[]" "[]"]
    by blast
  show ?thesis
    using a b A B C D E by (intro conjI)
qed



subsection \<open>The response cache\<close>


lemma send_command_hit:
  assumes "cache_enabled s"
    and "get_cached_response (cache_ttl s) (cache s)
           (generate_cache_key rt command provider context) (sc_time_lookup clock) = (Some hit, entries)"
  shows "send_command rt s clock command provider context w = (SendOk hit, s\<lparr>cache := entries\<rparr>, w, [])"
  using assms by (simp add: send_command_def Let_def)

lemma send_failed_outcome:
  "fst (send_failed s clock request_id command provider e) \<noteq> SendOk r"
  by (simp add: send_failed_def Let_def)

lemma add_to_request_history_fields:
  "cache_enabled (add_to_request_history outcome s) = cache_enabled s"
  "cache_ttl (add_to_request_history outcome s) = cache_ttl s"
  "cache (add_to_request_history outcome s) = cache s"
  by (simp_all add: add_to_request_history_def Let_def)

lemma send_command_miss_ok:
  assumes "cache_enabled s"
    and "get_cached_response (cache_ttl s) (cache s)
           (generate_cache_key rt command provider context) (sc_time_lookup clock) = (None, entries)"
    and "send_command rt s clock command provider context w = (SendOk r, s', w', trace)"
  shows "\<not> sr_cached r \<and> cache_enabled s' \<and> cache_ttl s' = cache_ttl s"
proof (cases "select_provider (s\<lparr>cache := entries\<rparr>) provider")
  case None
  then have "fst (send_command rt s clock command provider context w)
      = fst (send_failed (s\<lparr>cache := entries\<rparr>) clock
               (\<lfloor>sc_time_id clock\<rfloor>, length (request_history s)) command provider
               (BridgeError ''No available AI providers''))"
    using assms(1,2) by (simp add: send_command_def Let_def split: prod.splits)
  then show ?thesis using assms(3) send_failed_outcome by (metis fst_conv)
next
  case (Some selected)
  obtain res v tr where sw: "send_with_retries (rt_sleep rt) selected command context w = (res, v, tr)"
    by (cases "send_with_retries (rt_sleep rt) selected command context w") auto
  show ?thesis
  proof (cases res)
    case (Inl e)
    then have "fst (send_command rt s clock command provider context w)
      = fst (send_failed (s\<lparr>cache := entries\<rparr>) clock
               (\<lfloor>sc_time_id clock\<rfloor>, length (request_history s)) command provider e)"
      using assms(1,2) Some sw by (simp add: send_command_def Let_def split: prod.splits)
    then show ?thesis using assms(3) send_failed_outcome by (metis fst_conv)
  next
    case (Inr response)
    then show ?thesis
      using assms Some sw
      by (auto simp: send_command_def Let_def add_to_request_history_fields)
  qed
qed

lemma get_cached_hit_shape:
  assumes "get_cached_response ttl entries k now = (Some hit, entries')"
  shows "entries' = entries \<and> (\<exists>e. map_of entries k = Some e \<and> hit = (ce_response e)\<lparr>sr_cached := True\<rparr>)"
  using assms by (auto simp: get_cached_response_def split: option.splits if_splits)

lemma cache_unflagged_lookup:
  "cache_unflagged entries \<Longrightarrow> map_of entries k = Some e \<Longrightarrow> \<not> sr_cached (ce_response e)"
proof -
  assume a: "cache_unflagged entries" and b: "map_of entries k = Some e"
  from b have "(k, e) \<in> set entries" by (rule map_of_SomeD)
  with a show ?thesis by (auto simp: cache_unflagged_def list_all_iff)
qed

lemma dict_set_all: "list_all P d \<Longrightarrow> P (k, v) \<Longrightarrow> list_all P (dict_set k v d)"
  by (induction d) auto

lemma cache_response_unflagged:
  "cache_unflagged entries \<Longrightarrow> \<not> sr_cached r \<Longrightarrow>
   cache_unflagged (cache_response n entries k r now)"
proof -
  assume a: "cache_unflagged entries" and b: "\<not> sr_cached r"
  have "list_all (\<lambda>kv. \<not> sr_cached (ce_response (snd kv)))
          (dict_set k \<lparr>ce_response = r, ce_timestamp = now\<rparr> entries)"
    using a b unfolding cache_unflagged_def by (intro dict_set_all) simp_all
  then show ?thesis
    by (simp add: cache_response_def cache_unflagged_def Let_def list_all_iff)
qed

lemma get_cached_unflagged:
  "cache_unflagged entries \<Longrightarrow> cache_unflagged (snd (get_cached_response ttl entries k now))"
  by (simp add: get_cached_response_def cache_unflagged_def dict_del_def list_all_iff
      split: option.splits)

lemma send_failed_cache:
  "send_failed s clock rid command provider e = (outcome, s') \<Longrightarrow> cache s' = cache s"
  by (auto simp: send_failed_def Let_def add_to_request_history_fields)

lemma cache_unflagged_invariant:
  "cache_unflagged (cache s) \<Longrightarrow>
   cache_unflagged (cache (fst (snd (send_command rt s clock command provider context w))))"
proof -
  assume inv: "cache_unflagged (cache s)"
  let ?k = "generate_cache_key rt command provider context"
  let ?g = "if cache_enabled s
            then get_cached_response (cache_ttl s) (cache s) ?k (sc_time_lookup clock)
            else (None, cache s)"
  have e: "cache_unflagged (snd ?g)"
    using inv get_cached_unflagged [of "cache s"] by simp
  obtain cr entries where g: "?g = (cr, entries)" by (cases ?g) auto
  with e have e': "cache_unflagged entries" by simp
  show ?thesis
  proof (cases cr)
    case (Some hit)
    then show ?thesis using g e' by (simp add: send_command_def Let_def)
  next
    case None
    show ?thesis
    proof (cases "select_provider (s\<lparr>cache := entries\<rparr>) provider")
      case n: None
      then show ?thesis
        using g None e'
        by (auto simp: send_command_def Let_def split: prod.splits dest!: send_failed_cache)
    next
      case (Some selected)
      obtain res v tr where sw:
        "send_with_retries (rt_sleep rt) selected command context w = (res, v, tr)"
        by (cases "send_with_retries (rt_sleep rt) selected command context w") auto
      show ?thesis
      proof (cases res)
        case (Inl ex)
        then show ?thesis
          using g None Some sw e'
          by (auto simp: send_command_def Let_def split: prod.splits dest!: send_failed_cache)
      next
        case (Inr response)
        then show ?thesis
          using g None Some sw e'
          by (simp add: send_command_def Let_def add_to_request_history_fields
              cache_response_unflagged)
      qed
    qed
  qed
qed

text \<open>
  Claim C2. Take a sender with caching enabled, in a state where no cached result carries the
  flag \<open>cached\<close> (the lemma \<open>cache_unflagged_invariant\<close>: true of the empty cache and kept by
  every call). If a first call of \<open>send_command\<close> for a command, provider and context succeeds
  and its result is in the cache afterwards, then a second call for the same triple, whose
  lookup happens no later than \<open>ttl_seconds\<close> after the result was stored, returns the first
  result with the flag \<open>cached\<close> set, the flag being unset on the first result; the second
  call calls no provider and changes neither the sender nor the outside.
\<close>

theorem cache_idempotence:
  assumes enabled: "cache_enabled s"
    and inv: "cache_unflagged (cache s)"
    and first: "send_command rt s c1 command provider context w = (SendOk r1, s1, w1, trace1)"
    and stored: "map_of (cache s1) (generate_cache_key rt command provider context)
                   = Some \<lparr>ce_response = r1, ce_timestamp = sc_time_store c1\<rparr>"
    and within: "sc_time_lookup c2 - sc_time_store c1 \<le> cache_ttl s"
  shows "\<not> sr_cached r1
       \<and> send_command rt s1 c2 command provider context w1
           = (SendOk (r1\<lparr>sr_cached := True\<rparr>), s1, w1, [])"
proof -
  let ?k = "generate_cache_key rt command provider context"
  obtain cr entries where g:
    "get_cached_response (cache_ttl s) (cache s) ?k (sc_time_lookup c1) = (cr, entries)"
    by (cases "get_cached_response (cache_ttl s) (cache s) ?k (sc_time_lookup c1)") auto
  have miss: "cr = None"
  proof (rule ccontr)
    assume "cr \<noteq> None"
    then obtain hit where hit: "cr = Some hit" by auto
    from g hit obtain e where e: "entries = cache s" "map_of (cache s) ?k = Some e"
      "hit = (ce_response e)\<lparr>sr_cached := True\<rparr>"
      using get_cached_hit_shape by blast
    have "send_command rt s c1 command provider context w = (SendOk hit, s\<lparr>cache := entries\<rparr>, w, [])"
      using enabled g hit by (intro send_command_hit) simp_all
    with first have r1: "r1 = hit" and s1: "s1 = s\<lparr>cache := entries\<rparr>" by simp_all
    from stored s1 e have "e = \<lparr>ce_response = r1, ce_timestamp = sc_time_store c1\<rparr>" by simp
    then have "ce_response e = r1" by simp
    with inv e(2) have "\<not> sr_cached r1" using cache_unflagged_lookup by blast
    moreover from r1 e(3) have "sr_cached r1" by simp
    ultimately show False by contradiction
  qed
  have props: "\<not> sr_cached r1 \<and> cache_enabled s1 \<and> cache_ttl s1 = cache_ttl s"
    using enabled g miss first by (intro send_command_miss_ok [where entries = entries]) simp_all
  have "get_cached_response (cache_ttl s1) (cache s1) ?k (sc_time_lookup c2)
      = (Some (r1\<lparr>sr_cached := True\<rparr>), cache s1)"
    using stored within props by (simp add: get_cached_response_def)
  then have "send_command rt s1 c2 command provider context w1
      = (SendOk (r1\<lparr>sr_cached := True\<rparr>), s1\<lparr>cache := cache s1\<rparr>, w1, [])"
    using props by (intro send_command_hit) simp_all
  then show ?thesis using props by simp
qed


lemma example_first:
  "fst (send_command example_runtime example_sender example_clock1 ''print hi'' None None 0)
     = SendOk example_result"
  by code_simp


lemma example_stored:
  "map_of (cache (fst (snd (send_command example_runtime example_sender example_clock1
                              ''print hi'' None None 0))))
          (generate_cache_key example_runtime ''print hi'' None None)
     = Some \<lparr>ce_response = example_result, ce_timestamp = sc_time_store example_clock1\<rparr>"
  by code_simp

theorem cache_idempotence_witness:
  "cache_enabled example_sender
   \<and> cache_unflagged (cache example_sender)
   \<and> fst (send_command example_runtime example_sender example_clock1 ''print hi'' None None 0)
       = SendOk example_result
   \<and> sc_time_lookup example_clock2 - sc_time_store example_clock1 \<le> cache_ttl example_sender
   \<and> \<not> sr_cached example_result
   \<and> (let after = send_command example_runtime example_sender example_clock1 ''print hi'' None None 0
      in send_command example_runtime (fst (snd after)) example_clock2 ''print hi'' None None
           (fst (snd (snd after)))
         = (SendOk (example_result\<lparr>sr_cached := True\<rparr>), fst (snd after), fst (snd (snd after)), []))"
proof -
  let ?after = "send_command example_runtime example_sender example_clock1 ''print hi'' None None 0"
  have enabled: "cache_enabled example_sender" by (simp add: example_sender_def)
  have inv: "cache_unflagged (cache example_sender)"
    by (simp add: example_sender_def cache_unflagged_def)
  have first: "?after = (SendOk example_result, fst (snd ?after), fst (snd (snd ?after)),
                         snd (snd (snd ?after)))"
    using example_first by (metis prod.collapse)
  have within: "sc_time_lookup example_clock2 - sc_time_store example_clock1 \<le> cache_ttl example_sender"
    by (simp add: example_clock1_def example_clock2_def example_sender_def)
  show ?thesis
    using cache_idempotence [OF enabled inv first example_stored within]
      enabled inv example_first within
    by (simp add: Let_def)
qed



subsection \<open>What a completed interaction records\<close>







end
